theory Spec2Isabelle
  imports Main
begin

section \<open>Python strings\<close>

text \<open>
  A Python \<^verbatim>\<open>str\<close> is a sequence of Unicode code points, so a string is a list of
  natural numbers here. String constants of the source are written as HOL string
  literals and converted with \<open>py\<close>; all of them are ASCII.
\<close>

type_synonym pystr = "nat list"

definition py :: "string \<Rightarrow> pystr" where
  "py s = map of_char s"

text \<open>
  The character classes used by \<^verbatim>\<open>str.strip()\<close> and by the \<^verbatim>\<open>re\<close> module on
  \<^verbatim>\<open>str\<close> patterns (\<^verbatim>\<open>\s\<close>, \<^verbatim>\<open>\d\<close>, \<^verbatim>\<open>\w\<close>) come from the interpreter's Unicode
  database. The ASCII part is written out. The classification of every other code
  point is a parameter \<open>U\<close> of the model, except for the four non-ASCII letters that
  \<^verbatim>\<open>re.IGNORECASE\<close> identifies with ASCII letters: U+0130 and U+0131 (with \<^verbatim>\<open>i\<close>),
  U+017F (with \<^verbatim>\<open>s\<close>) and U+212A (with \<^verbatim>\<open>k\<close>).

  A code point is whitespace (\<open>USpace\<close>: \<^verbatim>\<open>str.isspace\<close>, stripped by \<^verbatim>\<open>strip\<close> and
  matched by \<^verbatim>\<open>\s\<close>), a decimal digit (\<open>UDecimal\<close>: matched by \<^verbatim>\<open>\d\<close>), alphanumeric
  without being a decimal digit (\<open>UAlnum\<close>), or none of these. The word characters
  of \<^verbatim>\<open>\w\<close> and \<^verbatim>\<open>\b\<close> are the alphanumeric ones, decimal digits included, and the
  underscore.
\<close>

datatype uclass = USpace | UDecimal | UAlnum | UOther

type_synonym ucd = "nat \<Rightarrow> uclass"

definition ascii_class :: "nat \<Rightarrow> uclass" where
  "ascii_class c =
     (if (9 \<le> c \<and> c \<le> 13) \<or> (28 \<le> c \<and> c \<le> 32) then USpace
      else if 48 \<le> c \<and> c \<le> 57 then UDecimal
      else if (65 \<le> c \<and> c \<le> 90) \<or> (97 \<le> c \<and> c \<le> 122) then UAlnum
      else UOther)"

definition cls :: "ucd \<Rightarrow> nat \<Rightarrow> uclass" where
  "cls U c =
     (if c < 128 then ascii_class c
      else if c = 0x130 \<or> c = 0x131 \<or> c = 0x17F \<or> c = 0x212A then UAlnum
      else U c)"

definition is_space :: "ucd \<Rightarrow> nat \<Rightarrow> bool" where
  "is_space U c = (cls U c = USpace)"

definition is_decimal :: "ucd \<Rightarrow> nat \<Rightarrow> bool" where
  "is_decimal U c = (cls U c = UDecimal)"

definition is_word :: "ucd \<Rightarrow> nat \<Rightarrow> bool" where
  "is_word U c = (cls U c = UAlnum \<or> cls U c = UDecimal \<or> c = 95)"

text \<open>
  Case-insensitive comparison of a subject code point with an ASCII letter of a
  pattern compiled with \<^verbatim>\<open>re.I\<close>: both are mapped to the lower-case ASCII letter they
  are identified with.
\<close>

definition ci_key :: "nat \<Rightarrow> nat" where
  "ci_key c =
     (if 65 \<le> c \<and> c \<le> 90 then c + 32
      else if c = 0x130 \<or> c = 0x131 then 105
      else if c = 0x17F then 115
      else if c = 0x212A then 107
      else c)"

definition ci_eq :: "nat \<Rightarrow> nat \<Rightarrow> bool" where
  "ci_eq p c = (ci_key c = ci_key p)"

text \<open>\<^verbatim>\<open>s.strip()\<close>: leading and trailing whitespace removed.\<close>

definition strip :: "ucd \<Rightarrow> pystr \<Rightarrow> pystr" where
  "strip U s = rev (dropWhile (is_space U) (rev (dropWhile (is_space U) s)))"

text \<open>\<^verbatim>\<open>s.startswith(p)\<close>, \<^verbatim>\<open>s.endswith(p)\<close> and \<^verbatim>\<open>p in s\<close>.\<close>

definition startswith :: "pystr \<Rightarrow> pystr \<Rightarrow> bool" where
  "startswith s p = (take (length p) s = p)"

definition endswith :: "pystr \<Rightarrow> pystr \<Rightarrow> bool" where
  "endswith s p = (length p \<le> length s \<and> drop (length s - length p) s = p)"

fun contains :: "pystr \<Rightarrow> pystr \<Rightarrow> bool" where
  "contains p [] = (p = [])"
| "contains p (c # cs) = (startswith (c # cs) p \<or> contains p cs)"

section \<open>Regular expressions\<close>

text \<open>
  The fragment of \<^verbatim>\<open>re\<close> syntax that the three patterns of \<^verbatim>\<open>SafeSQLTool._run\<close>
  use: literal text (compared case-insensitively, all three patterns carry the
  \<^verbatim>\<open>re.I\<close> flag), \<^verbatim>\<open>\s*\<close>, \<^verbatim>\<open>\s+\<close>, \<^verbatim>\<open>\d+\<close>, the word boundary \<^verbatim>\<open>\b\<close>, sequence and
  alternation.
\<close>

datatype cset = Space | Digit

datatype rx = Lit pystr | Star cset | Plus cset | Bnd | Seq rx rx | Alt rx rx

fun alts :: "rx \<Rightarrow> rx list \<Rightarrow> rx" where
  "alts r [] = r"
| "alts r (q # qs) = Alt r (alts q qs)"

fun in_cset :: "ucd \<Rightarrow> cset \<Rightarrow> nat \<Rightarrow> bool" where
  "in_cset U Space c = is_space U c"
| "in_cset U Digit c = is_decimal U c"

text \<open>
  A backtracking matcher. A cursor is the input still to be read together with a
  flag telling whether the code point just before it is a word character (needed by
  \<^verbatim>\<open>\b\<close>; false at the start of the string). \<open>rmatch\<close> returns the cursors at which
  a match of the pattern starting at the given cursor can end, in the order in which
  the backtracking engine tries them.
\<close>

fun lit :: "ucd \<Rightarrow> pystr \<Rightarrow> bool \<Rightarrow> pystr \<Rightarrow> (bool \<times> pystr) list" where
  "lit U [] pw xs = [(pw, xs)]"
| "lit U (p # ps) pw [] = []"
| "lit U (p # ps) pw (c # cs) = (if ci_eq p c then lit U ps (is_word U c) cs else [])"

fun star :: "ucd \<Rightarrow> cset \<Rightarrow> bool \<Rightarrow> pystr \<Rightarrow> (bool \<times> pystr) list" where
  "star U k pw [] = [(pw, [])]"
| "star U k pw (c # cs) =
     (if in_cset U k c then star U k (is_word U c) cs else []) @ [(pw, c # cs)]"

definition boundary :: "ucd \<Rightarrow> bool \<Rightarrow> pystr \<Rightarrow> bool" where
  "boundary U pw xs = (pw \<noteq> (case xs of [] \<Rightarrow> False | c # _ \<Rightarrow> is_word U c))"

fun rmatch :: "ucd \<Rightarrow> rx \<Rightarrow> bool \<times> pystr \<Rightarrow> (bool \<times> pystr) list" where
  "rmatch U (Lit ps) (pw, xs) = lit U ps pw xs"
| "rmatch U (Star k) (pw, xs) = star U k pw xs"
| "rmatch U (Plus k) (pw, xs) =
     (case xs of [] \<Rightarrow> []
      | c # cs \<Rightarrow> if in_cset U k c then star U k (is_word U c) cs else [])"
| "rmatch U Bnd (pw, xs) = (if boundary U pw xs then [(pw, xs)] else [])"
| "rmatch U (Seq a b) cur = concat (map (rmatch U b) (rmatch U a cur))"
| "rmatch U (Alt a b) cur = rmatch U a cur @ rmatch U b cur"

text \<open>
  \<^verbatim>\<open>re.match\<close> tries the pattern at the start of the string only, \<^verbatim>\<open>re.search\<close> at
  every position from left to right. The source uses both results as truth values
  only.
\<close>

definition re_match :: "ucd \<Rightarrow> rx \<Rightarrow> pystr \<Rightarrow> bool" where
  "re_match U r s = (rmatch U r (False, s) \<noteq> [])"

fun search :: "ucd \<Rightarrow> rx \<Rightarrow> bool \<Rightarrow> pystr \<Rightarrow> bool" where
  "search U r pw [] = (rmatch U r (pw, []) \<noteq> [])"
| "search U r pw (c # cs) = (rmatch U r (pw, c # cs) \<noteq> [] \<or> search U r (is_word U c) cs)"

definition re_search :: "ucd \<Rightarrow> rx \<Rightarrow> pystr \<Rightarrow> bool" where
  "re_search U r s = search U r False s"

subsection \<open>The patterns of the safety filter\<close>

definition write_keywords :: "pystr list" where
  "write_keywords =
     [py ''INSERT'', py ''UPDATE'', py ''DELETE'', py ''DROP'',
      py ''TRUNCATE'', py ''ALTER'', py ''CREATE'', py ''REPLACE'']"

text \<open>\<^verbatim>\<open>r"\b(INSERT|UPDATE|DELETE|DROP|TRUNCATE|ALTER|CREATE|REPLACE)\b"\<close> with \<^verbatim>\<open>re.I\<close>\<close>

definition write_pattern :: rx where
  "write_pattern =
     Seq Bnd (Seq (alts (Lit (py ''INSERT''))
                     [Lit (py ''UPDATE''), Lit (py ''DELETE''), Lit (py ''DROP''),
                      Lit (py ''TRUNCATE''), Lit (py ''ALTER''), Lit (py ''CREATE''),
                      Lit (py ''REPLACE'')])
                  Bnd)"

text \<open>
  \<^verbatim>\<open>r"(?is)^\s*select\b"\<close>, used with \<^verbatim>\<open>re.match\<close>: the match starts at the beginning of
  the string, where \<^verbatim>\<open>^\<close> holds; the flag \<^verbatim>\<open>s\<close> only concerns \<^verbatim>\<open>.\<close>, which the pattern
  does not use.
\<close>

definition select_pattern :: rx where
  "select_pattern = Seq (Star Space) (Seq (Lit (py ''select'')) Bnd)"

text \<open>\<^verbatim>\<open>r"\blimit\s+\d+\b"\<close> with \<^verbatim>\<open>re.I\<close>\<close>

definition limit_pattern :: rx where
  "limit_pattern = Seq Bnd (Seq (Lit (py ''limit'')) (Seq (Plus Space) (Seq (Plus Digit) Bnd)))"

section \<open>The database engine and Python's formatting\<close>

text \<open>
  The engine is a parameter of the model: opening a connection may raise, and so may
  running a statement (or fetching its rows); otherwise the statement yields its column
  names and its rows. Exceptions are represented by their message \<^verbatim>\<open>str(e)\<close>.
\<close>

datatype 'v reply = Db_raises pystr | Db_rows "pystr list" "'v list list"

record 'v engine =
  connect_error :: "pystr option"
  exec_driver_sql :: "pystr \<Rightarrow> 'v reply"

text \<open>
  The statements that the \<^verbatim>\<open>try\<close> blocks of \<^verbatim>\<open>_run\<close> and of the four functions
  \<^verbatim>\<open>get_..._data\<close> share: open a connection, run the statement on it, fetch the rows
  and the column names. The outcome comes with the statements handed to
  \<^verbatim>\<open>conn.exec_driver_sql\<close> on the way: none when the connection does not open.
\<close>

definition query_rows :: "'v engine \<Rightarrow> pystr \<Rightarrow> 'v reply \<times> pystr list" where
  "query_rows E s =
     (case connect_error E of
        Some e \<Rightarrow> (Db_raises e, [])
      | None \<Rightarrow> (exec_driver_sql E s, [s]))"

text \<open>
  \<^verbatim>\<open>repr\<close> of a column name and of a cell of a row are taken from the interpreter;
  the \<^verbatim>\<open>repr\<close> of lists, of the dictionary and of the row count are written out.
\<close>

record 'v pyfmt =
  repr_str :: "pystr \<Rightarrow> pystr"
  repr_cell :: "'v \<Rightarrow> pystr"

function str_nat :: "nat \<Rightarrow> pystr" where
  "str_nat n = (if n < 10 then [48 + n] else str_nat (n div 10) @ [48 + n mod 10])"
  by pat_completeness auto

termination
  by (relation "measure (\<lambda>n. n)") auto

declare str_nat.simps [simp del]

fun join :: "pystr \<Rightarrow> pystr list \<Rightarrow> pystr" where
  "join sep [] = []"
| "join sep [x] = x"
| "join sep (x # y # ys) = x @ sep @ join sep (y # ys)"

definition repr_list :: "pystr list \<Rightarrow> pystr" where
  "repr_list xs = py ''['' @ join (py '', '') xs @ py '']''"

definition repr_result_data :: "'v pyfmt \<Rightarrow> pystr list \<Rightarrow> 'v list list \<Rightarrow> pystr" where
  "repr_result_data F columns rows =
     py ''{'columns': '' @ repr_list (map (repr_str F) columns) @
     py '', 'rows': '' @ repr_list (map (\<lambda>row. repr_list (map (repr_cell F) row)) rows) @
     py '', 'row_count': '' @ str_nat (length rows) @ py ''}''"

section \<open>\<^verbatim>\<open>SafeSQLTool._run\<close>\<close>

text \<open>
  The body of \<^verbatim>\<open>_run\<close> has two parts. The first (up to the \<^verbatim>\<open>try\<close> statement) either
  returns one of three error strings or computes the SQL text \<^verbatim>\<open>s\<close> that the second
  part works with: \<open>sanitize\<close> yields the early return taken, or that text.
\<close>

datatype rejection = Write_operation | Multiple_statements | Not_select

fun error_message :: "rejection \<Rightarrow> pystr" where
  "error_message Write_operation =
     py ''ERROR: Write operations are not allowed for security reasons.''"
| "error_message Multiple_statements = py ''ERROR: Multiple statements are not allowed.''"
| "error_message Not_select = py ''ERROR: Only SELECT statements are allowed.''"

definition sanitize :: "ucd \<Rightarrow> pystr \<Rightarrow> rejection + pystr" where
  "sanitize U sql =
     (let s = strip U sql in
      if re_search U write_pattern s then Inl Write_operation
      else if contains (py '';'') s \<and> \<not> endswith (strip U s) (py '';'') then
        Inl Multiple_statements
      else if \<not> re_match U select_pattern s then Inl Not_select
      else Inr (if \<not> re_search U limit_pattern s then s @ py '' LIMIT 50'' else s))"

text \<open>
  The result of a call: the string returned and the statements handed to
  \<^verbatim>\<open>conn.exec_driver_sql\<close> during the call. The second part of \<^verbatim>\<open>_run\<close> is its \<^verbatim>\<open>try\<close>
  statement: the body returns one of two strings, and the \<^verbatim>\<open>except\<close> clause turns
  every exception raised in the body into a string.
\<close>

record run_result =
  ret :: pystr
  executed :: "pystr list"

definition execute :: "'v pyfmt \<Rightarrow> 'v engine \<Rightarrow> pystr \<Rightarrow> run_result" where
  "execute F E s =
     (case query_rows E s of
        (Db_rows columns rows, stmts) \<Rightarrow>
          if rows = [] then
            \<lparr>ret = py ''Query executed successfully but returned no results.'',
             executed = stmts\<rparr>
          else
            \<lparr>ret = py ''SUCCESS: '' @ repr_result_data F columns rows, executed = stmts\<rparr>
      | (Db_raises e, stmts) \<Rightarrow> \<lparr>ret = py ''ERROR: '' @ e, executed = stmts\<rparr>)"

text \<open>\<^verbatim>\<open>_run\<close> as a whole: an early return hands nothing to the database.\<close>

definition run :: "ucd \<Rightarrow> 'v pyfmt \<Rightarrow> 'v engine \<Rightarrow> pystr \<Rightarrow> run_result" where
  "run U F E sql =
     (case sanitize U sql of
        Inl r \<Rightarrow> \<lparr>ret = error_message r, executed = []\<rparr>
      | Inr s \<Rightarrow> execute F E s)"

section \<open>The HTTP handler \<^verbatim>\<open>query_agent\<close>\<close>

text \<open>
  Python values as they occur in request and response bodies. \<open>PCell\<close> is a value of
  a database row; \<open>PFloat\<close> carries the text of a JSON number with a fraction or an
  exponent. A dictionary is the list of its items in insertion order.
\<close>

datatype 'v pyval =
    PNone | PBool bool | PInt int | PFloat pystr | PStr pystr
  | PList "'v pyval list" | PDict "(pystr \<times> 'v pyval) list" | PCell 'v

text \<open>
  What the handler takes from the interpreter and its libraries: the message of the
  \<^verbatim>\<open>AttributeError\<close> raised when a method is looked up on a value that lacks it,
  \<^verbatim>\<open>json.loads\<close> (\<open>None\<close> when it raises), the text an f-string inserts for a value, and
  \<^verbatim>\<open>str.lower()\<close> on a code point outside ASCII (given the text before and after it).
\<close>

record 'v pyrt =
  attribute_error :: "'v pyval \<Rightarrow> pystr \<Rightarrow> pystr"
  json_loads :: "pystr \<Rightarrow> 'v pyval option"
  format_value :: "'v pyval \<Rightarrow> pystr"
  lower_non_ascii :: "pystr \<Rightarrow> nat \<Rightarrow> pystr \<Rightarrow> pystr"

fun lower_scan :: "'v pyrt \<Rightarrow> pystr \<Rightarrow> pystr \<Rightarrow> pystr" where
  "lower_scan R before [] = []"
| "lower_scan R before (c # cs) =
     (if c < 128 then [if 65 \<le> c \<and> c \<le> 90 then c + 32 else c]
      else lower_non_ascii R before c cs) @ lower_scan R (before @ [c]) cs"

definition lower :: "'v pyrt \<Rightarrow> pystr \<Rightarrow> pystr" where
  "lower R s = lower_scan R [] s"

text \<open>
  The hosted agent: \<^verbatim>\<open>get_sql_agent()\<close> returns \<open>None\<close> or an agent; invoking the agent
  and reading the \<^verbatim>\<open>output\<close> of its response either raises or yields a string.
\<close>

datatype agent_result = Agent_raises pystr | Agent_output pystr

type_synonym agent = "pystr \<Rightarrow> agent_result"

text \<open>
  A response is an HTTP status with the value given to \<^verbatim>\<open>jsonify\<close>. Along with it the
  model records what the handler did to produce it: whether it set up the agent,
  the input it invoked the agent with, the statements it ran on the database itself.
\<close>

datatype event = Agent_init | Agent_invoke pystr | Db_exec pystr

record 'v http_result =
  status :: nat
  body :: "'v pyval"
  effects :: "event list"

definition result_data :: "pystr list \<Rightarrow> 'v list list \<Rightarrow> 'v pyval" where
  "result_data columns rows =
     PDict [(py ''columns'', PList (map PStr columns)),
            (py ''rows'', PList (map (\<lambda>row. PList (map PCell row)) rows)),
            (py ''row_count'', PInt (int (length rows)))]"

text \<open>
  The four functions \<^verbatim>\<open>get_customers_data\<close>, \<^verbatim>\<open>get_products_data\<close>, \<^verbatim>\<open>get_orders_data\<close>
  and \<^verbatim>\<open>get_revenue_data\<close> have the same body up to the statement and the message:
  a \<^verbatim>\<open>try\<close> statement that runs the statement and answers with its rows, and whose
  \<^verbatim>\<open>except\<close> clause answers with the message of the exception. The cells of the rows
  are taken to be values that \<^verbatim>\<open>jsonify\<close> can serialise.
\<close>

definition direct_query :: "'v engine \<Rightarrow> pystr \<Rightarrow> (nat \<Rightarrow> pystr) \<Rightarrow> 'v http_result" where
  "direct_query E sql message =
     (case query_rows E sql of
        (Db_rows columns rows, stmts) \<Rightarrow>
          \<lparr>status = 200,
           body = PDict [(py ''success'', PBool True),
                         (py ''data'', result_data columns rows),
                         (py ''message'', PStr (message (length rows)))],
           effects = map Db_exec stmts\<rparr>
      | (Db_raises e, stmts) \<Rightarrow>
          \<lparr>status = 200,
           body = PDict [(py ''success'', PBool False),
                         (py ''message'', PStr (py ''Database error: '' @ e)),
                         (py ''data'', PNone)],
           effects = map Db_exec stmts\<rparr>)"

definition get_customers_data :: "'v engine \<Rightarrow> 'v http_result" where
  "get_customers_data E =
     direct_query E (py ''SELECT * FROM customers LIMIT 20'')
       (\<lambda>n. py ''Found '' @ str_nat n @
             py '' customers (API quota exceeded, showing direct database results)'')"

definition get_products_data :: "'v engine \<Rightarrow> 'v http_result" where
  "get_products_data E =
     direct_query E (py ''SELECT * FROM products LIMIT 20'')
       (\<lambda>n. py ''Found '' @ str_nat n @
             py '' products (API quota exceeded, showing direct database results)'')"

definition get_orders_data :: "'v engine \<Rightarrow> 'v http_result" where
  "get_orders_data E =
     direct_query E (py ''SELECT * FROM orders LIMIT 20'')
       (\<lambda>n. py ''Found '' @ str_nat n @
             py '' orders (API quota exceeded, showing direct database results)'')"

definition revenue_sql :: pystr where
  "revenue_sql =
     py ''\<newline>'' @
     py ''                SELECT \<newline>'' @
     py ''                    SUM(oi.quantity * oi.unit_price_cents) as total_revenue_cents,\<newline>'' @
     py ''                    COUNT(DISTINCT o.id) as total_orders,\<newline>'' @
     py ''                    COUNT(DISTINCT o.customer_id) as total_customers\<newline>'' @
     py ''                FROM orders o\<newline>'' @
     py ''                JOIN order_items oi ON o.id = oi.order_id\<newline>'' @
     py ''            ''"

definition get_revenue_data :: "'v engine \<Rightarrow> 'v http_result" where
  "get_revenue_data E =
     direct_query E revenue_sql
       (\<lambda>n. py ''Revenue analysis (API quota exceeded, showing direct database results)'')"

text \<open>
  \<^verbatim>\<open>handle_quota_exceeded\<close>. Its own \<^verbatim>\<open>except\<close> clause is not modelled: the four functions
  above catch every exception themselves and the remaining operations raise none.
\<close>

definition handle_quota_exceeded :: "'v pyrt \<Rightarrow> 'v engine \<Rightarrow> pystr \<Rightarrow> 'v http_result" where
  "handle_quota_exceeded R E user_query =
     (let query_lower = lower R user_query in
      if contains (py ''customers'') query_lower then get_customers_data E
      else if contains (py ''products'') query_lower then get_products_data E
      else if contains (py ''orders'') query_lower then get_orders_data E
      else if contains (py ''revenue'') query_lower \<or> contains (py ''total'') query_lower then
        get_revenue_data E
      else
        \<lparr>status = 200,
         body = PDict [(py ''success'', PBool False),
                       (py ''message'', PStr (py ''API quota exceeded. Please try again later or upgrade your plan. For now, try asking about \"customers\", \"products\", or \"orders\".'')),
                       (py ''data'', PNone)],
         effects = []\<rparr>)"

text \<open>
  The response \<^verbatim>\<open>jsonify({'error': f'Server error: {...}'}), 500\<close> of the two \<^verbatim>\<open>except\<close>
  clauses of \<^verbatim>\<open>query_agent\<close>, and \<^verbatim>\<open>dict.get\<close> with a default.
\<close>

definition server_error :: "pystr \<Rightarrow> event list \<Rightarrow> 'v http_result" where
  "server_error msg evs =
     \<lparr>status = 500, body = PDict [(py ''error'', PStr (py ''Server error: '' @ msg))],
      effects = evs\<rparr>"

definition dict_get :: "(pystr \<times> 'v pyval) list \<Rightarrow> pystr \<Rightarrow> 'v pyval \<Rightarrow> 'v pyval" where
  "dict_get items key dflt = (case map_of items key of None \<Rightarrow> dflt | Some v \<Rightarrow> v)"

text \<open>
  The part of \<^verbatim>\<open>query_agent\<close> that turns the output of the agent into a response. The
  bare \<^verbatim>\<open>except\<close> clause takes over when \<^verbatim>\<open>json.loads\<close> raises and when the value parsed
  cannot be subscripted with \<^verbatim>\<open>'row_count'\<close>.
\<close>

definition agent_answer :: "'v pyrt \<Rightarrow> pystr \<Rightarrow> event list \<Rightarrow> 'v http_result" where
  "agent_answer R result evs =
     (let unstructured =
            \<lparr>status = 200,
             body = PDict [(py ''success'', PBool True), (py ''message'', PStr result),
                           (py ''data'', PNone)],
             effects = evs\<rparr> in
      if startswith result (py ''SUCCESS: '') then
        (case json_loads R (drop 9 result) of
           None \<Rightarrow> unstructured
         | Some (PDict items) \<Rightarrow>
             (case map_of items (py ''row_count'') of
                None \<Rightarrow> unstructured
              | Some n \<Rightarrow>
                  \<lparr>status = 200,
                   body = PDict [(py ''success'', PBool True), (py ''data'', PDict items),
                                 (py ''message'',
                                  PStr (py ''Query executed successfully. Found '' @
                                        format_value R n @ py '' rows.''))],
                   effects = evs\<rparr>)
         | Some _ \<Rightarrow> unstructured)
      else
        \<lparr>status = 200,
         body = PDict [(py ''success'', PBool False), (py ''message'', PStr result),
                       (py ''data'', PNone)],
         effects = evs\<rparr>)"

text \<open>
  \<^verbatim>\<open>query_agent\<close>. The request is given by what \<^verbatim>\<open>request.get_json()\<close> does: it raises
  (\<open>Inl\<close> with the message) or returns the parsed body. A body that is not a
  dictionary has no \<^verbatim>\<open>get\<close>, a \<^verbatim>\<open>query\<close> that is not a string has no \<^verbatim>\<open>strip\<close>: both raise
  \<^verbatim>\<open>AttributeError\<close>, which the outer \<^verbatim>\<open>except\<close> clause catches.
\<close>

definition query_agent ::
  "ucd \<Rightarrow> 'v pyrt \<Rightarrow> agent option \<Rightarrow> 'v engine \<Rightarrow> pystr + 'v pyval \<Rightarrow> 'v http_result" where
  "query_agent U R get_sql_agent E request_json =
     (case request_json of
        Inl e \<Rightarrow> server_error e []
      | Inr (PDict items) \<Rightarrow>
          (case dict_get items (py ''query'') (PStr []) of
             PStr q \<Rightarrow>
               (let user_query = strip U q in
                if user_query = [] then
                  \<lparr>status = 400, body = PDict [(py ''error'', PStr (py ''No query provided''))],
                   effects = []\<rparr>
                else
                  (case get_sql_agent of
                     None \<Rightarrow>
                       \<lparr>status = 500,
                        body = PDict [(py ''error'',
                          PStr (py ''Failed to initialize SQL agent. Check your API key.''))],
                        effects = [Agent_init]\<rparr>
                   | Some agent \<Rightarrow>
                       (case agent user_query of
                          Agent_output result \<Rightarrow>
                            agent_answer R result [Agent_init, Agent_invoke user_query]
                        | Agent_raises error_msg \<Rightarrow>
                            if contains (py ''429'') error_msg \<or>
                               contains (py ''quota'') (lower R error_msg)
                            then
                              (let r = handle_quota_exceeded R E user_query in
                               r\<lparr>effects := [Agent_init, Agent_invoke user_query] @ effects r\<rparr>)
                            else server_error error_msg [Agent_init, Agent_invoke user_query])))
           | v \<Rightarrow> server_error (attribute_error R v (py ''strip'')) [])
      | Inr v \<Rightarrow> server_error (attribute_error R v (py ''get'')) [])"

section \<open>The vocabulary of the safety filter contract\<close>

text \<open>
  The contract speaks of keywords contained case-insensitively and as whole words,
  of input that begins with the keyword SELECT, and of a LIMIT clause. These notions
  are defined here on the text itself, without reference to the matcher: a text is a
  keyword up to case when it agrees with it letter by letter; an occurrence is a
  whole word when no word character stands directly before or after it.
\<close>

definition ascii_letter :: "nat \<Rightarrow> bool" where
  "ascii_letter p = ((65 \<le> p \<and> p \<le> 90) \<or> (97 \<le> p \<and> p \<le> 122))"

definition ci_text :: "pystr \<Rightarrow> pystr \<Rightarrow> bool" where
  "ci_text K mid = list_all2 ci_eq K mid"

definition ends_in_word :: "ucd \<Rightarrow> pystr \<Rightarrow> bool" where
  "ends_in_word U pre = (pre \<noteq> [] \<and> is_word U (last pre))"

definition starts_with_word :: "ucd \<Rightarrow> pystr \<Rightarrow> bool" where
  "starts_with_word U post = (post \<noteq> [] \<and> is_word U (hd post))"

definition whole_word :: "ucd \<Rightarrow> (pystr \<Rightarrow> bool) \<Rightarrow> pystr \<Rightarrow> bool" where
  "whole_word U Q s =
     (\<exists>pre core post. s = pre @ core @ post \<and> Q core \<and>
        \<not> ends_in_word U pre \<and> \<not> starts_with_word U post)"

definition contains_keyword :: "ucd \<Rightarrow> pystr \<Rightarrow> pystr \<Rightarrow> bool" where
  "contains_keyword U K s = whole_word U (ci_text K) s"

definition contains_write_keyword :: "ucd \<Rightarrow> pystr \<Rightarrow> bool" where
  "contains_write_keyword U s = (\<exists>K\<in>set write_keywords. contains_keyword U K s)"

definition begins_with_select :: "ucd \<Rightarrow> pystr \<Rightarrow> bool" where
  "begins_with_select U s =
     (\<exists>ws mid post. s = ws @ mid @ post \<and> (\<forall>c\<in>set ws. is_space U c) \<and>
        ci_text (py ''select'') mid \<and> \<not> starts_with_word U post)"

definition limit_clause :: "ucd \<Rightarrow> pystr \<Rightarrow> bool" where
  "limit_clause U core =
     (\<exists>mid ws ds. core = mid @ ws @ ds \<and> ci_text (py ''limit'') mid \<and>
        ws \<noteq> [] \<and> (\<forall>c\<in>set ws. is_space U c) \<and>
        ds \<noteq> [] \<and> (\<forall>c\<in>set ds. is_decimal U c))"

definition has_limit_clause :: "ucd \<Rightarrow> pystr \<Rightarrow> bool" where
  "has_limit_clause U s = whole_word U (limit_clause U) s"


text \<open>
  The code point of the semicolon, and the condition under which \<^verbatim>\<open>query_agent\<close> treats
  the message of an exception as a report of quota exhaustion.
\<close>

definition semicolon :: nat where
  "semicolon = of_char (CHR '';'')"

definition quota_reported :: "'v pyrt \<Rightarrow> pystr \<Rightarrow> bool" where
  "quota_reported R msg = (contains (py ''429'') msg \<or> contains (py ''quota'') (lower R msg))"

text \<open>
  The word flag of a cursor after the text \<open>mid\<close> has been read (used to state what
  the matcher computes).
\<close>

definition wlast :: "ucd \<Rightarrow> bool \<Rightarrow> pystr \<Rightarrow> bool" where
  "wlast U pw mid = (if mid = [] then pw else is_word U (last mid))"

section \<open>Concrete instances\<close>

text \<open>
  Parameters at which the theorems below are instantiated: a Unicode table that
  classifies no code point outside ASCII, formatting functions, database engines and
  agents with fixed answers.
\<close>

definition ascii_only :: ucd where
  "ascii_only c = UOther"

definition example_fmt :: "nat pyfmt" where
  "example_fmt = \<lparr>repr_str = (\<lambda>s. [39] @ s @ [39]), repr_cell = str_nat\<rparr>"

definition example_engine :: "nat engine" where
  "example_engine =
     \<lparr>connect_error = None, exec_driver_sql = (\<lambda>s. Db_rows [py ''id''] [[1], [2]])\<rparr>"

definition failing_engine :: "nat engine" where
  "failing_engine =
     \<lparr>connect_error = None, exec_driver_sql = (\<lambda>s. Db_raises (py ''no such table: t''))\<rparr>"

fun type_name :: "'v pyval \<Rightarrow> pystr" where
  "type_name PNone = py ''NoneType''"
| "type_name (PBool b) = py ''bool''"
| "type_name (PInt i) = py ''int''"
| "type_name (PFloat x) = py ''float''"
| "type_name (PStr s) = py ''str''"
| "type_name (PList xs) = py ''list''"
| "type_name (PDict items) = py ''dict''"
| "type_name (PCell v) = py ''object''"

definition example_rt :: "nat pyrt" where
  "example_rt =
     \<lparr>attribute_error =
        (\<lambda>v name. [39] @ type_name v @ [39] @ py '' object has no attribute '' @
                   [39] @ name @ [39]),
      json_loads = (\<lambda>s. None),
      format_value = (\<lambda>v. py ''<value>''),
      lower_non_ascii = (\<lambda>before c after. [c])\<rparr>"

definition throttled_agent :: agent where
  "throttled_agent q = Agent_raises (py ''429 Resource has been exhausted (e.g. check Quota).'')"

definition broken_agent :: agent where
  "broken_agent q = Agent_raises (py ''connection reset'')"

section \<open>What the matcher computes\<close>

lemma wlast_simps [simp]:
  "wlast U pw [] = pw"
  "wlast U pw (c # cs) = wlast U (is_word U c) cs"
  "wlast U pw (xs @ [c]) = is_word U c"
  by (simp_all add: wlast_def)

lemma lit_iff:
  "(pw', rest) \<in> set (lit U K pw xs) \<longleftrightarrow>
     (\<exists>mid. xs = mid @ rest \<and> ci_text K mid \<and> pw' = wlast U pw mid)"
proof (induction U K pw xs rule: lit.induct)
  case (1 U pw xs)
  then show ?case by (auto simp: ci_text_def)
next
  case (2 U p ps pw)
  then show ?case by (auto simp: ci_text_def)
next
  case (3 U p ps pw c cs)
  show ?case
  proof (cases "ci_eq p c")
    case True
    with 3 show ?thesis
      apply (simp add: ci_text_def list_all2_Cons1)
      apply (rule iffI)
       apply (erule exE)
       apply (rule_tac x="c # mid" in exI)
       apply simp
      apply (erule exE)
      apply (clarsimp simp: Cons_eq_append_conv)
      done
  next
    case False
    then show ?thesis
      by (auto simp: ci_text_def list_all2_Cons1 Cons_eq_append_conv)
  qed
qed

lemma star_iff:
  "(pw', rest) \<in> set (star U k pw xs) \<longleftrightarrow>
     (\<exists>mid. xs = mid @ rest \<and> (\<forall>c\<in>set mid. in_cset U k c) \<and> pw' = wlast U pw mid)"
proof (induction xs arbitrary: pw)
  case Nil
  then show ?case by auto
next
  case (Cons c cs)
  show ?case
  proof (cases "in_cset U k c")
    case True
    show ?thesis
    proof
      assume "(pw', rest) \<in> set (star U k pw (c # cs))"
      with True have "(pw', rest) \<in> set (star U k (is_word U c) cs) \<or> (pw', rest) = (pw, c # cs)"
        by auto
      then show "\<exists>mid. c # cs = mid @ rest \<and> (\<forall>c\<in>set mid. in_cset U k c) \<and> pw' = wlast U pw mid"
      proof
        assume "(pw', rest) \<in> set (star U k (is_word U c) cs)"
        then obtain mid where "cs = mid @ rest" "\<forall>c\<in>set mid. in_cset U k c" "pw' = wlast U (is_word U c) mid"
          using Cons.IH by blast
        with True show ?thesis by (intro exI [of _ "c # mid"]) simp
      next
        assume "(pw', rest) = (pw, c # cs)"
        then show ?thesis by (intro exI [of _ "[]"]) simp
      qed
    next
      assume "\<exists>mid. c # cs = mid @ rest \<and> (\<forall>c\<in>set mid. in_cset U k c) \<and> pw' = wlast U pw mid"
      then obtain mid where m: "c # cs = mid @ rest" "\<forall>c\<in>set mid. in_cset U k c" "pw' = wlast U pw mid"
        by blast
      show "(pw', rest) \<in> set (star U k pw (c # cs))"
      proof (cases mid)
        case Nil
        with m have "rest = c # cs" "pw' = pw" by simp_all
        then show ?thesis by simp
      next
        case (Cons d ds)
        with m have "cs = ds @ rest" "\<forall>c\<in>set ds. in_cset U k c" "pw' = wlast U (is_word U c) ds"
          by auto
        then have "(pw', rest) \<in> set (star U k (is_word U c) cs)"
          using Cons.IH by blast
        with True show ?thesis by simp
      qed
    qed
  next
    case False
    then show ?thesis
      by (auto simp: Cons_eq_append_conv)
  qed
qed

lemma search_iff:
  "search U r pw xs \<longleftrightarrow> (\<exists>pre suf. xs = pre @ suf \<and> rmatch U r (wlast U pw pre, suf) \<noteq> [])"
proof (induction xs arbitrary: pw)
  case Nil
  then show ?case by simp
next
  case (Cons c cs)
  show ?case
  proof
    assume "search U r pw (c # cs)"
    then have "rmatch U r (pw, c # cs) \<noteq> [] \<or> search U r (is_word U c) cs" by simp
    then show "\<exists>pre suf. c # cs = pre @ suf \<and> rmatch U r (wlast U pw pre, suf) \<noteq> []"
    proof
      assume "rmatch U r (pw, c # cs) \<noteq> []"
      then show ?thesis by (intro exI [of _ "[]"] exI [of _ "c # cs"]) simp
    next
      assume "search U r (is_word U c) cs"
      then obtain pre suf where "cs = pre @ suf" "rmatch U r (wlast U (is_word U c) pre, suf) \<noteq> []"
        using Cons.IH by blast
      then show ?thesis by (intro exI [of _ "c # pre"] exI [of _ suf]) simp
    qed
  next
    assume "\<exists>pre suf. c # cs = pre @ suf \<and> rmatch U r (wlast U pw pre, suf) \<noteq> []"
    then obtain pre suf where ps: "c # cs = pre @ suf" "rmatch U r (wlast U pw pre, suf) \<noteq> []"
      by blast
    show "search U r pw (c # cs)"
    proof (cases pre)
      case Nil
      with ps have "suf = c # cs" "rmatch U r (pw, suf) \<noteq> []" by simp_all
      then show ?thesis by simp
    next
      case (Cons d ds)
      with ps have "cs = ds @ suf" "rmatch U r (wlast U (is_word U c) ds, suf) \<noteq> []" by auto
      then have "search U r (is_word U c) cs" using Cons.IH by blast
      then show ?thesis by simp
    qed
  qed
qed

lemma ci_eq_letter_cls: "ascii_letter p \<Longrightarrow> ci_eq p c \<Longrightarrow> cls U c = UAlnum"
  by (auto simp: ascii_letter_def ci_eq_def ci_key_def cls_def ascii_class_def split: if_splits)

lemma ci_text_cls:
  assumes "list_all ascii_letter K" "ci_text K mid" "c \<in> set mid"
  shows "cls U c = UAlnum"
proof -
  from assms(3) obtain i where i: "i < length mid" "mid ! i = c"
    by (auto simp: in_set_conv_nth)
  with assms(2) have "ci_eq (K ! i) c" "i < length K"
    by (auto simp: ci_text_def list_all2_conv_all_nth)
  moreover from assms(1) \<open>i < length K\<close> have "ascii_letter (K ! i)"
    by (simp add: list_all_length)
  ultimately show ?thesis by (simp add: ci_eq_letter_cls)
qed

lemma alnum_word: "cls U c = UAlnum \<Longrightarrow> is_word U c"
  by (simp add: is_word_def)

lemma alnum_not_space: "cls U c = UAlnum \<Longrightarrow> \<not> is_space U c"
  by (simp add: is_space_def)

lemma space_not_word: "is_space U c \<Longrightarrow> \<not> is_word U c"
  by (auto simp: is_space_def is_word_def cls_def ascii_class_def split: if_splits)

lemma decimal_word: "is_decimal U c \<Longrightarrow> is_word U c"
  by (simp add: is_decimal_def is_word_def)

lemma decimal_not_space: "is_decimal U c \<Longrightarrow> \<not> is_space U c"
  by (simp add: is_decimal_def is_space_def)

text \<open>A non-empty text that is a keyword up to case starts and ends with a word character.\<close>

lemma ci_text_word_ends:
  assumes "list_all ascii_letter K" "K \<noteq> []" "ci_text K mid"
  shows "mid \<noteq> []" "is_word U (hd mid)" "is_word U (last mid)"
    "\<not> is_space U (hd mid)" "\<not> is_space U (last mid)"
proof -
  from assms(2,3) show ne: "mid \<noteq> []"
    by (auto simp: ci_text_def)
  then have "hd mid \<in> set mid" "last mid \<in> set mid" by simp_all
  then have "cls U (hd mid) = UAlnum" "cls U (last mid) = UAlnum"
    using ci_text_cls [OF assms(1,3)] by blast+
  then show "is_word U (hd mid)" "is_word U (last mid)"
    "\<not> is_space U (hd mid)" "\<not> is_space U (last mid)"
    by (simp_all add: alnum_word alnum_not_space)
qed

lemma write_keywords_letters: "K \<in> set write_keywords \<Longrightarrow> list_all ascii_letter K \<and> K \<noteq> []"
  by (auto simp: write_keywords_def py_def ascii_letter_def)

lemma select_letters: "list_all ascii_letter (py ''select'') \<and> py ''select'' \<noteq> []"
  by (simp add: py_def ascii_letter_def)

lemma limit_letters: "list_all ascii_letter (py ''limit'') \<and> py ''limit'' \<noteq> []"
  by (simp add: py_def ascii_letter_def)

lemma wlast_False: "wlast U False pre = ends_in_word U pre"
  by (simp add: wlast_def ends_in_word_def)

lemma boundary_starts: "boundary U pw xs = (pw \<noteq> starts_with_word U xs)"
  by (cases xs) (simp_all add: boundary_def starts_with_word_def)

lemma rmatch_nonempty: "rmatch U r cur \<noteq> [] \<longleftrightarrow> (\<exists>y. y \<in> set (rmatch U r cur))"
  by (cases "rmatch U r cur") auto

lemma mem_Seq:
  "y \<in> set (rmatch U (Seq a b) x) \<longleftrightarrow> (\<exists>m. m \<in> set (rmatch U a x) \<and> y \<in> set (rmatch U b m))"
  by auto

lemma mem_Bnd: "y \<in> set (rmatch U Bnd (pw, xs)) \<longleftrightarrow> boundary U pw xs \<and> y = (pw, xs)"
  by auto

lemma mem_Lit:
  "y \<in> set (rmatch U (Lit K) (pw, xs)) \<longleftrightarrow>
     (\<exists>mid rest. xs = mid @ rest \<and> ci_text K mid \<and> y = (wlast U pw mid, rest))"
  using lit_iff [of "fst y" "snd y" U K pw xs] by (cases y) auto

lemma mem_Star:
  "y \<in> set (rmatch U (Star k) (pw, xs)) \<longleftrightarrow>
     (\<exists>mid rest. xs = mid @ rest \<and> (\<forall>c\<in>set mid. in_cset U k c) \<and> y = (wlast U pw mid, rest))"
  using star_iff [of "fst y" "snd y" U k pw xs] by (cases y) auto

lemma mem_Plus:
  "y \<in> set (rmatch U (Plus k) (pw, xs)) \<longleftrightarrow>
     (\<exists>mid rest. mid \<noteq> [] \<and> xs = mid @ rest \<and> (\<forall>c\<in>set mid. in_cset U k c) \<and>
        y = (wlast U pw mid, rest))"
proof (cases xs)
  case Nil
  then show ?thesis by simp
next
  case (Cons c cs)
  show ?thesis
  proof (cases "in_cset U k c")
    case True
    have "y \<in> set (rmatch U (Plus k) (pw, xs)) \<longleftrightarrow> y \<in> set (star U k (is_word U c) cs)"
      using Cons True by simp
    also have "\<dots> \<longleftrightarrow> (\<exists>mid rest. cs = mid @ rest \<and> (\<forall>c\<in>set mid. in_cset U k c) \<and>
        y = (wlast U (is_word U c) mid, rest))"
      using star_iff [of "fst y" "snd y" U k "is_word U c" cs] by (cases y) auto
    also have "\<dots> \<longleftrightarrow> (\<exists>mid rest. mid \<noteq> [] \<and> xs = mid @ rest \<and> (\<forall>c\<in>set mid. in_cset U k c) \<and>
        y = (wlast U pw mid, rest))"
    proof
      assume "\<exists>mid rest. cs = mid @ rest \<and> (\<forall>c\<in>set mid. in_cset U k c) \<and>
        y = (wlast U (is_word U c) mid, rest)"
      then obtain mid rest where "cs = mid @ rest" "\<forall>c\<in>set mid. in_cset U k c"
        "y = (wlast U (is_word U c) mid, rest)" by blast
      with True Cons show "\<exists>mid rest. mid \<noteq> [] \<and> xs = mid @ rest \<and> (\<forall>c\<in>set mid. in_cset U k c) \<and>
        y = (wlast U pw mid, rest)"
        by (intro exI [of _ "c # mid"] exI [of _ rest]) simp
    next
      assume "\<exists>mid rest. mid \<noteq> [] \<and> xs = mid @ rest \<and> (\<forall>c\<in>set mid. in_cset U k c) \<and>
        y = (wlast U pw mid, rest)"
      then obtain mid rest where m: "mid \<noteq> []" "xs = mid @ rest" "\<forall>c\<in>set mid. in_cset U k c"
        "y = (wlast U pw mid, rest)" by blast
      then obtain d ds where "mid = d # ds" by (cases mid) auto
      with m Cons show "\<exists>mid rest. cs = mid @ rest \<and> (\<forall>c\<in>set mid. in_cset U k c) \<and>
        y = (wlast U (is_word U c) mid, rest)"
        by (intro exI [of _ ds] exI [of _ rest]) auto
    qed
    finally show ?thesis .
  next
    case False
    with Cons show ?thesis
      by (auto simp: Cons_eq_append_conv)
  qed
qed

lemma in_Bnd: "y \<in> set (rmatch U Bnd x) \<longleftrightarrow> boundary U (fst x) (snd x) \<and> y = x"
  by (cases x) auto

lemma in_Lit:
  "y \<in> set (rmatch U (Lit K) x) \<longleftrightarrow>
     (\<exists>mid rest. snd x = mid @ rest \<and> ci_text K mid \<and> y = (wlast U (fst x) mid, rest))"
  by (cases x) (simp only: mem_Lit fst_conv snd_conv)

lemma in_Star:
  "y \<in> set (rmatch U (Star k) x) \<longleftrightarrow>
     (\<exists>mid rest. snd x = mid @ rest \<and> (\<forall>c\<in>set mid. in_cset U k c) \<and>
        y = (wlast U (fst x) mid, rest))"
  by (cases x) (simp only: mem_Star fst_conv snd_conv)

lemma in_Plus:
  "y \<in> set (rmatch U (Plus k) x) \<longleftrightarrow>
     (\<exists>mid rest. mid \<noteq> [] \<and> snd x = mid @ rest \<and> (\<forall>c\<in>set mid. in_cset U k c) \<and>
        y = (wlast U (fst x) mid, rest))"
  by (cases x) (simp only: mem_Plus fst_conv snd_conv)

lemma mem_alts:
  "y \<in> set (rmatch U (alts r rs) x) \<longleftrightarrow> (\<exists>q\<in>set (r # rs). y \<in> set (rmatch U q x))"
  by (induction r rs rule: alts.induct) auto

lemma write_alternatives:
  "write_pattern = Seq Bnd (Seq (alts (Lit (hd write_keywords)) (map Lit (tl write_keywords))) Bnd)"
  by (simp add: write_pattern_def write_keywords_def)

lemma mem_keyword_alts:
  "y \<in> set (rmatch U (alts (Lit (hd write_keywords)) (map Lit (tl write_keywords))) x) \<longleftrightarrow>
     (\<exists>K\<in>set write_keywords. y \<in> set (rmatch U (Lit K) x))"
proof -
  have "Lit (hd write_keywords) # map Lit (tl write_keywords) = map Lit write_keywords"
    by (simp add: write_keywords_def)
  then show ?thesis
    unfolding mem_alts by auto
qed

lemma write_match_iff:
  "rmatch U write_pattern (pw, xs) \<noteq> [] \<longleftrightarrow>
     (\<not> pw \<and> (\<exists>K\<in>set write_keywords. \<exists>mid rest.
         xs = mid @ rest \<and> ci_text K mid \<and> \<not> starts_with_word U rest))"
  (is "?L \<longleftrightarrow> ?R")
proof
  assume ?L
  then obtain y where "y \<in> set (rmatch U write_pattern (pw, xs))"
    unfolding rmatch_nonempty by blast
  then have "boundary U pw xs \<and> (\<exists>K\<in>set write_keywords. \<exists>mid rest.
      xs = mid @ rest \<and> ci_text K mid \<and> boundary U (wlast U pw mid) rest)"
    by (simp only: write_alternatives mem_Seq in_Bnd mem_keyword_alts in_Lit) auto
  then obtain K mid rest where b1: "boundary U pw xs" and K: "K \<in> set write_keywords"
    and xs: "xs = mid @ rest" and ci: "ci_text K mid" and b2: "boundary U (wlast U pw mid) rest"
    by blast
  from write_keywords_letters [OF K] ci
  have w: "mid \<noteq> []" "is_word U (hd mid)" "is_word U (last mid)"
    using ci_text_word_ends by blast+
  from w xs have "starts_with_word U xs" by (simp add: starts_with_word_def)
  with b1 have "\<not> pw" by (simp add: boundary_starts)
  moreover from w have "wlast U pw mid" by (simp add: wlast_def)
  with b2 have "\<not> starts_with_word U rest" by (simp add: boundary_starts)
  ultimately show ?R using K xs ci by blast
next
  assume ?R
  then obtain K mid rest where npw: "\<not> pw" and K: "K \<in> set write_keywords"
    and xs: "xs = mid @ rest" and ci: "ci_text K mid" and nsw: "\<not> starts_with_word U rest"
    by blast
  from write_keywords_letters [OF K] ci
  have w: "mid \<noteq> []" "is_word U (hd mid)" "is_word U (last mid)"
    using ci_text_word_ends by blast+
  from w xs have "starts_with_word U xs" by (simp add: starts_with_word_def)
  with npw have b1: "boundary U pw xs" by (simp add: boundary_starts)
  from w have "wlast U pw mid" by (simp add: wlast_def)
  with nsw have b2: "boundary U (wlast U pw mid) rest" by (simp add: boundary_starts)
  have "boundary U pw xs \<and> (\<exists>K\<in>set write_keywords. \<exists>mid' rest'.
      xs = mid' @ rest' \<and> ci_text K mid' \<and> boundary U (wlast U pw mid') rest' \<and>
      (wlast U pw mid, rest) = (wlast U pw mid', rest'))"
    using b1 b2 K xs ci by blast
  then have "(wlast U pw mid, rest) \<in> set (rmatch U write_pattern (pw, xs))"
    by (simp only: write_alternatives mem_Seq in_Bnd mem_keyword_alts in_Lit) auto
  then show ?L unfolding rmatch_nonempty by blast
qed

lemma re_search_write_iff: "re_search U write_pattern s \<longleftrightarrow> contains_write_keyword U s"
  unfolding re_search_def search_iff write_match_iff wlast_False
    contains_write_keyword_def contains_keyword_def whole_word_def
  by blast

lemma re_match_select_iff: "re_match U select_pattern s \<longleftrightarrow> begins_with_select U s"
  (is "?L \<longleftrightarrow> ?R")
proof
  assume ?L
  then obtain y where "y \<in> set (rmatch U select_pattern (False, s))"
    unfolding re_match_def rmatch_nonempty by blast
  then have "\<exists>ws r1 mid rest. s = ws @ r1 \<and> (\<forall>c\<in>set ws. is_space U c) \<and>
      r1 = mid @ rest \<and> ci_text (py ''select'') mid \<and>
      boundary U (wlast U (wlast U False ws) mid) rest"
    by (simp only: select_pattern_def mem_Seq in_Bnd in_Lit in_Star in_cset.simps) auto
  then obtain ws r1 mid rest where s: "s = ws @ r1" and ws: "\<forall>c\<in>set ws. is_space U c"
    and r1: "r1 = mid @ rest" and ci: "ci_text (py ''select'') mid"
    and b: "boundary U (wlast U (wlast U False ws) mid) rest"
    by blast
  from select_letters ci have "mid \<noteq> []" "is_word U (last mid)"
    using ci_text_word_ends by blast+
  then have "wlast U (wlast U False ws) mid" by (simp add: wlast_def)
  with b have "\<not> starts_with_word U rest" by (simp add: boundary_starts)
  with s ws r1 ci show ?R unfolding begins_with_select_def by blast
next
  assume ?R
  then obtain ws mid post where s: "s = ws @ mid @ post" and ws: "\<forall>c\<in>set ws. is_space U c"
    and ci: "ci_text (py ''select'') mid" and nsw: "\<not> starts_with_word U post"
    unfolding begins_with_select_def by blast
  from select_letters ci have "mid \<noteq> []" "is_word U (last mid)"
    using ci_text_word_ends by blast+
  then have "wlast U (wlast U False ws) mid" by (simp add: wlast_def)
  with nsw have b: "boundary U (wlast U (wlast U False ws) mid) post" by (simp add: boundary_starts)
  let ?c1 = "(wlast U False ws, mid @ post)"
  let ?c2 = "(wlast U (wlast U False ws) mid, post)"
  have 1: "?c1 \<in> set (rmatch U (Star Space) (False, s))"
    unfolding mem_Star using s ws by auto
  have 2: "?c2 \<in> set (rmatch U (Lit (py ''select'')) ?c1)"
    unfolding mem_Lit using ci by blast
  have 3: "?c2 \<in> set (rmatch U Bnd ?c2)"
    unfolding mem_Bnd using b by simp
  from 2 3 have "?c2 \<in> set (rmatch U (Seq (Lit (py ''select'')) Bnd) ?c1)"
    unfolding mem_Seq by blast
  with 1 have "?c2 \<in> set (rmatch U select_pattern (False, s))"
    unfolding select_pattern_def mem_Seq [of _ _ "Star Space"] by blast
  then show ?L unfolding re_match_def rmatch_nonempty by blast
qed

lemma limit_match_iff:
  "rmatch U limit_pattern (pw, xs) \<noteq> [] \<longleftrightarrow>
     (\<not> pw \<and> (\<exists>core post. xs = core @ post \<and> limit_clause U core \<and> \<not> starts_with_word U post))"
  (is "?L \<longleftrightarrow> ?R")
proof
  assume ?L
  then obtain y where "y \<in> set (rmatch U limit_pattern (pw, xs))"
    unfolding rmatch_nonempty by blast
  then obtain m1 where b1: "boundary U pw xs"
    and m1: "m1 \<in> set (rmatch U (Lit (py ''limit'')) (pw, xs))"
    and y1: "y \<in> set (rmatch U (Seq (Plus Space) (Seq (Plus Digit) Bnd)) m1)"
    unfolding limit_pattern_def mem_Seq [of _ _ Bnd] mem_Seq [of _ _ "Lit (py ''limit'')"] mem_Bnd
    by blast
  from m1 obtain mid r1 where xs1: "xs = mid @ r1" and ci: "ci_text (py ''limit'') mid"
    and m1_eq: "m1 = (wlast U pw mid, r1)"
    unfolding mem_Lit by blast
  from y1 obtain m2 where m2: "m2 \<in> set (rmatch U (Plus Space) m1)"
    and y2: "y \<in> set (rmatch U (Seq (Plus Digit) Bnd) m2)"
    unfolding mem_Seq [of _ _ "Plus Space"] by blast
  from m2 obtain ws r2 where ws: "ws \<noteq> []" "\<forall>c\<in>set ws. is_space U c" and r1: "r1 = ws @ r2"
    and m2_eq: "m2 = (wlast U (wlast U pw mid) ws, r2)"
    unfolding m1_eq mem_Plus by auto
  from y2 obtain m3 where m3: "m3 \<in> set (rmatch U (Plus Digit) m2)"
    and y3: "y \<in> set (rmatch U Bnd m3)"
    unfolding mem_Seq by blast
  from m3 obtain ds r3 where ds: "ds \<noteq> []" "\<forall>c\<in>set ds. is_decimal U c" and r2: "r2 = ds @ r3"
    and m3_eq: "m3 = (wlast U (wlast U (wlast U pw mid) ws) ds, r3)"
    unfolding m2_eq mem_Plus by auto
  from y3 have b2: "boundary U (wlast U (wlast U (wlast U pw mid) ws) ds) r3"
    unfolding m3_eq mem_Bnd by simp
  from xs1 r1 r2 have xs: "xs = mid @ ws @ ds @ r3" by simp
  from limit_letters ci have w: "mid \<noteq> []" "is_word U (hd mid)"
    using ci_text_word_ends by blast+
  with xs have "starts_with_word U xs" by (simp add: starts_with_word_def)
  with b1 have "\<not> pw" by (simp add: boundary_starts)
  moreover from ds have "wlast U (wlast U (wlast U pw mid) ws) ds"
    by (simp add: wlast_def decimal_word)
  with b2 have "\<not> starts_with_word U r3" by (simp add: boundary_starts)
  moreover from ci ws ds have "limit_clause U (mid @ ws @ ds)"
    unfolding limit_clause_def by blast
  ultimately show ?R using xs by (intro conjI exI [of _ "mid @ ws @ ds"] exI [of _ r3]) simp_all
next
  assume ?R
  then obtain core post where npw: "\<not> pw" and xs0: "xs = core @ post"
    and lc: "limit_clause U core" and nsw: "\<not> starts_with_word U post"
    by blast
  from lc obtain mid ws ds where core: "core = mid @ ws @ ds"
    and ci: "ci_text (py ''limit'') mid" and ws: "ws \<noteq> []" "\<forall>c\<in>set ws. is_space U c"
    and ds: "ds \<noteq> []" "\<forall>c\<in>set ds. is_decimal U c"
    unfolding limit_clause_def by blast
  from limit_letters ci have w: "mid \<noteq> []" "is_word U (hd mid)"
    using ci_text_word_ends by blast+
  let ?p1 = "wlast U pw mid"
  let ?p2 = "wlast U ?p1 ws"
  let ?p3 = "wlast U ?p2 ds"
  from w xs0 core have "starts_with_word U xs" by (simp add: starts_with_word_def)
  with npw have "boundary U pw xs" by (simp add: boundary_starts)
  then have 0: "(pw, xs) \<in> set (rmatch U Bnd (pw, xs))"
    unfolding mem_Bnd by simp
  have 1: "(?p1, ws @ ds @ post) \<in> set (rmatch U (Lit (py ''limit'')) (pw, xs))"
    unfolding mem_Lit using ci xs0 core by auto
  have 2: "(?p2, ds @ post) \<in> set (rmatch U (Plus Space) (?p1, ws @ ds @ post))"
    unfolding mem_Plus using ws by auto
  have 3: "(?p3, post) \<in> set (rmatch U (Plus Digit) (?p2, ds @ post))"
    unfolding mem_Plus using ds by auto
  from ds have "?p3" by (simp add: wlast_def decimal_word)
  with nsw have "boundary U ?p3 post" by (simp add: boundary_starts)
  then have 4: "(?p3, post) \<in> set (rmatch U Bnd (?p3, post))"
    unfolding mem_Bnd by simp
  from 3 4 have "(?p3, post) \<in> set (rmatch U (Seq (Plus Digit) Bnd) (?p2, ds @ post))"
    unfolding mem_Seq by blast
  with 2 have "(?p3, post) \<in> set (rmatch U (Seq (Plus Space) (Seq (Plus Digit) Bnd)) (?p1, ws @ ds @ post))"
    unfolding mem_Seq [of _ _ "Plus Space"] by blast
  with 1 have "(?p3, post) \<in>
      set (rmatch U (Seq (Lit (py ''limit'')) (Seq (Plus Space) (Seq (Plus Digit) Bnd))) (pw, xs))"
    unfolding mem_Seq [of _ _ "Lit (py ''limit'')"] by blast
  with 0 have "(?p3, post) \<in> set (rmatch U limit_pattern (pw, xs))"
    unfolding limit_pattern_def mem_Seq [of _ _ Bnd] by blast
  then show ?L unfolding rmatch_nonempty by blast
qed

lemma re_search_limit_iff: "re_search U limit_pattern s \<longleftrightarrow> has_limit_clause U s"
  unfolding re_search_def search_iff limit_match_iff wlast_False has_limit_clause_def whole_word_def
  by blast

section \<open>Stripping whitespace\<close>

lemma strip_decomp:
  "\<exists>a b. s = a @ strip U s @ b \<and> (\<forall>c\<in>set a. is_space U c) \<and> (\<forall>c\<in>set b. is_space U c)"
proof -
  let ?t = "dropWhile (is_space U) s"
  have "s = takeWhile (is_space U) s @ ?t" by simp
  moreover have "rev (takeWhile (is_space U) (rev ?t) @ dropWhile (is_space U) (rev ?t)) = ?t"
    by (simp only: takeWhile_dropWhile_id rev_rev_ident)
  then have "?t = strip U s @ rev (takeWhile (is_space U) (rev ?t))"
    by (simp only: strip_def rev_append)
  ultimately have "s = takeWhile (is_space U) s @ strip U s @ rev (takeWhile (is_space U) (rev ?t))"
    by simp
  moreover have "\<forall>c\<in>set (takeWhile (is_space U) s). is_space U c"
    by (auto dest: set_takeWhileD)
  moreover have "\<forall>c\<in>set (rev (takeWhile (is_space U) (rev ?t))). is_space U c"
    by (auto dest: set_takeWhileD)
  ultimately show ?thesis by blast
qed

lemma strip_Cons_space: "is_space U c \<Longrightarrow> strip U (c # s) = strip U s"
  by (simp add: strip_def)

lemma strip_snoc_space: "is_space U c \<Longrightarrow> strip U (s @ [c]) = strip U s"
proof (induction s)
  case Nil
  then show ?case by (simp add: strip_def)
next
  case (Cons d s)
  show ?case
  proof (cases "is_space U d")
    case True
    with Cons show ?thesis by (simp add: strip_Cons_space)
  next
    case False
    with Cons.prems show ?thesis by (simp add: strip_def)
  qed
qed

lemma strip_unspaced:
  assumes "s = [] \<or> (\<not> is_space U (hd s) \<and> \<not> is_space U (last s))"
  shows "strip U s = s"
proof (cases "s = []")
  case True
  then show ?thesis by (simp add: strip_def)
next
  case False
  with assms have h: "\<not> is_space U (hd s)" and l: "\<not> is_space U (last s)" by simp_all
  from h False have "dropWhile (is_space U) s = s" by (cases s) simp_all
  moreover from l False have "dropWhile (is_space U) (rev s) = rev s"
    by (cases s rule: rev_cases) simp_all
  ultimately show ?thesis by (simp add: strip_def)
qed

lemma spaces_invariant:
  assumes l: "\<And>c s. is_space U c \<Longrightarrow> P (c # s) = P s"
    and r: "\<And>c s. is_space U c \<Longrightarrow> P (s @ [c]) = P s"
  shows "P (strip U s) = P s"
proof -
  obtain a b where s: "s = a @ strip U s @ b" and a: "\<forall>c\<in>set a. is_space U c"
    and b: "\<forall>c\<in>set b. is_space U c"
    using strip_decomp by blast
  have L: "P (a @ t) = P t" if "\<forall>c\<in>set a. is_space U c" for a t
    using that by (induction a) (simp_all add: l)
  have R: "P (t @ b) = P t" if "\<forall>c\<in>set b. is_space U c" for b t
    using that
  proof (induction b rule: rev_induct)
    case Nil
    then show ?case by simp
  next
    case (snoc x xs)
    then have "P ((t @ xs) @ [x]) = P (t @ xs)" by (intro r) simp
    with snoc show ?case by simp
  qed
  have "P s = P (a @ strip U s @ b)" using s by simp
  also have "\<dots> = P (strip U s @ b)" using a by (rule L)
  also have "\<dots> = P (strip U s)" using b by (rule R)
  finally show ?thesis by simp
qed

lemma strip_idem: "strip U (strip U s) = strip U s"
  using spaces_invariant [of U "\<lambda>t. strip U t = strip U s" s]
  by (simp add: strip_Cons_space strip_snoc_space)

lemma ends_in_word_Cons_space:
  "is_space U c \<Longrightarrow> ends_in_word U (c # pre) = ends_in_word U pre"
  by (simp add: ends_in_word_def space_not_word)

lemma starts_with_word_snoc_space:
  "is_space U c \<Longrightarrow> starts_with_word U (post @ [c]) = starts_with_word U post"
  by (cases post) (simp_all add: starts_with_word_def space_not_word)

lemma whole_word_Cons_space:
  assumes c: "is_space U c"
    and Q: "\<And>core. Q core \<Longrightarrow> core \<noteq> [] \<and> \<not> is_space U (hd core)"
  shows "whole_word U Q (c # s) = whole_word U Q s"
proof
  assume "whole_word U Q (c # s)"
  then obtain pre core post where d: "c # s = pre @ core @ post" and q: "Q core"
    and e: "\<not> ends_in_word U pre" and w: "\<not> starts_with_word U post"
    unfolding whole_word_def by blast
  show "whole_word U Q s"
  proof (cases pre)
    case Nil
    with d Q [OF q] have "hd core = c" by (cases core) simp_all
    with c Q [OF q] show ?thesis by simp
  next
    case (Cons p pre')
    with d have "s = pre' @ core @ post" "p = c" by simp_all
    moreover from e Cons c \<open>p = c\<close> have "\<not> ends_in_word U pre'"
      by (simp add: ends_in_word_Cons_space)
    ultimately show ?thesis using q w unfolding whole_word_def by blast
  qed
next
  assume "whole_word U Q s"
  then obtain pre core post where d: "s = pre @ core @ post" and q: "Q core"
    and e: "\<not> ends_in_word U pre" and w: "\<not> starts_with_word U post"
    unfolding whole_word_def by blast
  from d have "c # s = (c # pre) @ core @ post" by simp
  moreover from e c have "\<not> ends_in_word U (c # pre)" by (simp add: ends_in_word_Cons_space)
  ultimately show "whole_word U Q (c # s)" using q w unfolding whole_word_def by blast
qed

lemma whole_word_snoc_space:
  assumes c: "is_space U c"
    and Q: "\<And>core. Q core \<Longrightarrow> core \<noteq> [] \<and> \<not> is_space U (last core)"
  shows "whole_word U Q (s @ [c]) = whole_word U Q s"
proof
  assume "whole_word U Q (s @ [c])"
  then obtain pre core post where d: "s @ [c] = pre @ core @ post" and q: "Q core"
    and e: "\<not> ends_in_word U pre" and w: "\<not> starts_with_word U post"
    unfolding whole_word_def by blast
  show "whole_word U Q s"
  proof (cases post rule: rev_cases)
    case Nil
    with d have "s @ [c] = pre @ core" by simp
    with Q [OF q] have "last core = c"
      by (metis last_appendR last_snoc)
    with c Q [OF q] show ?thesis by simp
  next
    case (snoc post' p)
    with d have "s @ [c] = (pre @ core @ post') @ [p]" by simp
    then have "s = pre @ core @ post'" "p = c" by simp_all
    moreover from w snoc c \<open>p = c\<close> have "\<not> starts_with_word U post'"
      by (simp add: starts_with_word_snoc_space)
    ultimately show ?thesis using q e unfolding whole_word_def by blast
  qed
next
  assume "whole_word U Q s"
  then obtain pre core post where d: "s = pre @ core @ post" and q: "Q core"
    and e: "\<not> ends_in_word U pre" and w: "\<not> starts_with_word U post"
    unfolding whole_word_def by blast
  from d have "s @ [c] = pre @ core @ (post @ [c])" by simp
  moreover from w c have "\<not> starts_with_word U (post @ [c])"
    by (simp add: starts_with_word_snoc_space)
  ultimately show "whole_word U Q (s @ [c])" using q e unfolding whole_word_def by blast
qed

lemma whole_word_strip:
  assumes "\<And>core. Q core \<Longrightarrow> core \<noteq> [] \<and> \<not> is_space U (hd core) \<and> \<not> is_space U (last core)"
  shows "whole_word U Q (strip U s) = whole_word U Q s"
proof (rule spaces_invariant)
  fix c s assume "is_space U c"
  then show "whole_word U Q (c # s) = whole_word U Q s"
    using assms by (intro whole_word_Cons_space) blast+
next
  fix c s assume "is_space U c"
  then show "whole_word U Q (s @ [c]) = whole_word U Q s"
    using assms by (intro whole_word_snoc_space) blast+
qed

lemma contains_keyword_strip:
  assumes "list_all ascii_letter K" "K \<noteq> []"
  shows "contains_keyword U K (strip U s) = contains_keyword U K s"
  unfolding contains_keyword_def
  using ci_text_word_ends [OF assms] by (intro whole_word_strip) blast

lemma contains_write_keyword_strip:
  "contains_write_keyword U (strip U s) = contains_write_keyword U s"
  unfolding contains_write_keyword_def
  using write_keywords_letters by (auto simp: contains_keyword_strip)

lemma limit_clause_ends:
  assumes "limit_clause U core"
  shows "core \<noteq> [] \<and> \<not> is_space U (hd core) \<and> \<not> is_space U (last core)"
proof -
  from assms obtain mid ws ds where core: "core = mid @ ws @ ds"
    and ci: "ci_text (py ''limit'') mid" and ds: "ds \<noteq> []" "\<forall>c\<in>set ds. is_decimal U c"
    unfolding limit_clause_def by blast
  from limit_letters ci have "mid \<noteq> []" "\<not> is_space U (hd mid)"
    using ci_text_word_ends by blast+
  moreover from ds have "\<not> is_space U (last ds)"
    by (simp add: decimal_not_space)
  ultimately show ?thesis using core ds by simp
qed

lemma has_limit_clause_strip: "has_limit_clause U (strip U s) = has_limit_clause U s"
  unfolding has_limit_clause_def by (intro whole_word_strip limit_clause_ends)

lemma begins_with_select_strip: "begins_with_select U (strip U s) = begins_with_select U s"
proof (rule spaces_invariant)
  fix c s assume c: "is_space U c"
  show "begins_with_select U (c # s) = begins_with_select U s"
  proof
    assume "begins_with_select U (c # s)"
    then obtain ws mid post where d: "c # s = ws @ mid @ post" and ws: "\<forall>c\<in>set ws. is_space U c"
      and ci: "ci_text (py ''select'') mid" and w: "\<not> starts_with_word U post"
      unfolding begins_with_select_def by blast
    from select_letters ci have m: "mid \<noteq> []" "\<not> is_space U (hd mid)"
      using ci_text_word_ends by blast+
    show "begins_with_select U s"
    proof (cases ws)
      case Nil
      with d m have "hd mid = c" by (cases mid) simp_all
      with c m show ?thesis by simp
    next
      case (Cons p ws')
      with d ws have "s = ws' @ mid @ post" "\<forall>c\<in>set ws'. is_space U c" by simp_all
      then show ?thesis using ci w unfolding begins_with_select_def by blast
    qed
  next
    assume "begins_with_select U s"
    then obtain ws mid post where d: "s = ws @ mid @ post" and ws: "\<forall>c\<in>set ws. is_space U c"
      and ci: "ci_text (py ''select'') mid" and w: "\<not> starts_with_word U post"
      unfolding begins_with_select_def by blast
    from d have "c # s = (c # ws) @ mid @ post" by simp
    moreover from ws c have "\<forall>x\<in>set (c # ws). is_space U x" by simp
    ultimately show "begins_with_select U (c # s)"
      using ci w unfolding begins_with_select_def by blast
  qed
next
  fix c s assume c: "is_space U c"
  show "begins_with_select U (s @ [c]) = begins_with_select U s"
  proof
    assume "begins_with_select U (s @ [c])"
    then obtain ws mid post where d: "s @ [c] = ws @ mid @ post" and ws: "\<forall>c\<in>set ws. is_space U c"
      and ci: "ci_text (py ''select'') mid" and w: "\<not> starts_with_word U post"
      unfolding begins_with_select_def by blast
    from select_letters ci have m: "mid \<noteq> []" "\<not> is_space U (last mid)"
      using ci_text_word_ends by blast+
    show "begins_with_select U s"
    proof (cases post rule: rev_cases)
      case Nil
      with d have "s @ [c] = ws @ mid" by simp
      with m have "last mid = c" by (metis last_appendR last_snoc)
      with c m show ?thesis by simp
    next
      case (snoc post' p)
      with d have "s @ [c] = (ws @ mid @ post') @ [p]" by simp
      then have "s = ws @ mid @ post'" "p = c" by simp_all
      moreover from w snoc c \<open>p = c\<close> have "\<not> starts_with_word U post'"
        by (simp add: starts_with_word_snoc_space)
      ultimately show ?thesis using ws ci unfolding begins_with_select_def by blast
    qed
  next
    assume "begins_with_select U s"
    then obtain ws mid post where d: "s = ws @ mid @ post" and ws: "\<forall>c\<in>set ws. is_space U c"
      and ci: "ci_text (py ''select'') mid" and w: "\<not> starts_with_word U post"
      unfolding begins_with_select_def by blast
    from d have "s @ [c] = ws @ mid @ (post @ [c])" by simp
    moreover from w c have "\<not> starts_with_word U (post @ [c])"
      by (simp add: starts_with_word_snoc_space)
    ultimately show "begins_with_select U (s @ [c])"
      using ws ci unfolding begins_with_select_def by blast
  qed
qed

lemma contains_semicolon: "contains (py '';'') s \<longleftrightarrow> 59 \<in> set s"
  by (induction s) (auto simp: py_def startswith_def)

lemma semicolon_not_space: "\<not> is_space U 59"
  by (simp add: is_space_def cls_def ascii_class_def)

lemma semicolon_strip: "59 \<in> set (strip U s) \<longleftrightarrow> 59 \<in> set s"
proof (rule spaces_invariant)
  fix c s assume "is_space U c"
  then have "c \<noteq> 59" using semicolon_not_space by blast
  then show "(59 \<in> set (c # s)) = (59 \<in> set s)" "(59 \<in> set (s @ [c])) = (59 \<in> set s)"
    by auto
qed

lemma endswith_semicolon: "endswith s (py '';'') \<longleftrightarrow> s \<noteq> [] \<and> last s = 59"
proof (cases s rule: rev_cases)
  case Nil
  then show ?thesis by (simp add: endswith_def py_def)
next
  case (snoc ys y)
  then show ?thesis by (auto simp: endswith_def py_def)
qed

lemma strip_ends:
  assumes "strip U s \<noteq> []"
  shows "\<not> is_space U (hd (strip U s))" and "\<not> is_space U (last (strip U s))"
proof -
  let ?t = "dropWhile (is_space U) s"
  let ?D = "dropWhile (is_space U) (rev ?t)"
  from assms have D: "?D \<noteq> []" by (simp add: strip_def)
  have t: "?t \<noteq> []"
  proof
    assume e: "?t = []"
    have "?D = []" unfolding e by simp
    with D show False by blast
  qed
  have "last (strip U s) = hd ?D" using D by (simp add: strip_def last_rev)
  with hd_dropWhile [OF D] show "\<not> is_space U (last (strip U s))" by simp
  have "rev ?t = takeWhile (is_space U) (rev ?t) @ ?D" by simp
  then have "last (rev ?t) = last (takeWhile (is_space U) (rev ?t) @ ?D)" by simp
  also have "\<dots> = last ?D" using D by (rule last_appendR)
  finally have "last ?D = hd ?t" using t by (simp add: last_rev)
  moreover have "hd (strip U s) = last ?D" using D by (simp add: strip_def hd_rev)
  ultimately have "hd (strip U s) = hd ?t" by simp
  with hd_dropWhile [OF t] show "\<not> is_space U (hd (strip U s))" by simp
qed

section \<open>The filter in the words of the contract\<close>

lemma sanitize_spec:
  "sanitize U sql =
     (if contains_write_keyword U sql then Inl Write_operation
      else if 59 \<in> set sql \<and> \<not> (strip U sql \<noteq> [] \<and> last (strip U sql) = 59) then
        Inl Multiple_statements
      else if \<not> begins_with_select U sql then Inl Not_select
      else Inr (if has_limit_clause U sql then strip U sql else strip U sql @ py '' LIMIT 50''))"
  by (auto simp: sanitize_def Let_def re_search_write_iff re_match_select_iff re_search_limit_iff
      contains_semicolon endswith_semicolon strip_idem contains_write_keyword_strip
      begins_with_select_strip has_limit_clause_strip semicolon_strip)

lemmas eval_defs = py_def strip_def is_space_def is_decimal_def is_word_def cls_def ascii_class_def
  ci_eq_def ci_key_def startswith_def endswith_def boundary_def re_search_def re_match_def
  write_pattern_def select_pattern_def limit_pattern_def sanitize_def ascii_only_def

section \<open>Appending the default limit\<close>

lemma ci_text_witness:
  assumes "ci_text K mid" "p \<in> set K"
  shows "\<exists>c\<in>set mid. ci_eq p c"
proof -
  from assms(2) obtain i where "i < length K" "K ! i = p"
    by (auto simp: in_set_conv_nth)
  with assms(1) have "ci_eq p (mid ! i)" "i < length mid"
    by (auto simp: ci_text_def list_all2_conv_all_nth)
  then show ?thesis using nth_mem by blast
qed

lemma write_keywords_E_or_D: "K \<in> set write_keywords \<Longrightarrow> 69 \<in> set K \<or> 68 \<in> set K"
  by (auto simp: write_keywords_def py_def)

lemma suffix_no_E_or_D: "c \<in> set (py '' LIMIT 50'') \<Longrightarrow> \<not> ci_eq 69 c \<and> \<not> ci_eq 68 c"
  by (auto simp: py_def ci_eq_def ci_key_def)

lemma suffix_head: "py '' LIMIT 50'' = 32 # py ''LIMIT 50''"
  by (simp add: py_def)

lemma space_32: "is_space U 32"
  by (simp add: is_space_def cls_def ascii_class_def)

lemma no_keyword_in_suffix:
  assumes K: "K \<in> set write_keywords" and ci: "ci_text K mid"
  shows "py '' LIMIT 50'' \<noteq> us @ mid @ post"
proof
  assume eq: "py '' LIMIT 50'' = us @ mid @ post"
  from write_keywords_E_or_D [OF K] obtain p where p: "p \<in> set K" "p = 69 \<or> p = 68" by blast
  from ci_text_witness [OF ci p(1)] obtain c where c: "c \<in> set mid" "ci_eq p c" by blast
  from c(1) have "c \<in> set (us @ mid @ post)" by simp
  with eq have "c \<in> set (py '' LIMIT 50'')" by simp
  with suffix_no_E_or_D c(2) p(2) show False by blast
qed

lemma append_limit_no_keyword:
  assumes "\<not> contains_write_keyword U s"
  shows "\<not> contains_write_keyword U (s @ py '' LIMIT 50'')"
proof
  let ?t = "py '' LIMIT 50''"
  assume "contains_write_keyword U (s @ ?t)"
  then obtain K pre mid post where K: "K \<in> set write_keywords"
    and eq: "s @ ?t = pre @ mid @ post" and ci: "ci_text K mid"
    and e: "\<not> ends_in_word U pre" and w: "\<not> starts_with_word U post"
    unfolding contains_write_keyword_def contains_keyword_def whole_word_def by blast
  from write_keywords_letters [OF K] ci have mid: "mid \<noteq> []" "\<forall>c\<in>set mid. cls U c = UAlnum"
    using ci_text_word_ends(1) ci_text_cls by blast+
  from eq consider us where "s = pre @ us" "us @ ?t = mid @ post"
    | us where "s @ us = pre" "?t = us @ mid @ post"
    by (auto simp: append_eq_append_conv2)
  then show False
  proof cases
    case 1
    from 1(2) consider vs where "us = mid @ vs" "vs @ ?t = post"
      | vs where "us @ vs = mid" "?t = vs @ post"
      by (auto simp: append_eq_append_conv2)
    then show False
    proof cases
      case (1 vs)
      then have "\<not> starts_with_word U vs"
        using w by (cases vs) (auto simp: starts_with_word_def)
      with \<open>s = pre @ us\<close> 1 K ci e have "contains_write_keyword U s"
        unfolding contains_write_keyword_def contains_keyword_def whole_word_def by auto
      with assms show False by blast
    next
      case (2 vs)
      show False
      proof (cases vs)
        case Nil
        with 2 \<open>s = pre @ us\<close> have "s = pre @ mid @ []" by simp
        moreover have "\<not> starts_with_word U []" by (simp add: starts_with_word_def)
        ultimately have "contains_write_keyword U s"
          using K ci e
          unfolding contains_write_keyword_def contains_keyword_def whole_word_def by blast
        with assms show False by blast
      next
        case (Cons v vs')
        with 2(2) have "v = 32" by (simp add: suffix_head)
        moreover from Cons 2(1) have "v \<in> set mid" by auto
        ultimately have "cls U 32 = UAlnum" using mid by blast
        then show False using space_32 [of U] by (simp add: is_space_def)
      qed
    qed
  next
    case 2
    with no_keyword_in_suffix [OF K ci] show False by blast
  qed
qed

lemma append_limit_begins_with_select:
  assumes "begins_with_select U s"
  shows "begins_with_select U (s @ py '' LIMIT 50'')"
proof -
  from assms obtain ws mid post where d: "s = ws @ mid @ post" and ws: "\<forall>c\<in>set ws. is_space U c"
    and ci: "ci_text (py ''select'') mid" and w: "\<not> starts_with_word U post"
    unfolding begins_with_select_def by blast
  from w have "\<not> starts_with_word U (post @ py '' LIMIT 50'')"
    using space_not_word [OF space_32, of U]
    by (cases post) (simp_all add: starts_with_word_def suffix_head)
  moreover from d have "s @ py '' LIMIT 50'' = ws @ mid @ (post @ py '' LIMIT 50'')" by simp
  ultimately show ?thesis using ws ci unfolding begins_with_select_def by blast
qed

lemma limit_50_clause: "limit_clause U (py ''LIMIT 50'')"
proof -
  have "py ''LIMIT 50'' = py ''LIMIT'' @ [32] @ py ''50''" by (simp add: py_def)
  moreover have "ci_text (py ''limit'') (py ''LIMIT'')"
    by (simp add: ci_text_def py_def ci_eq_def ci_key_def)
  moreover have "\<forall>c\<in>set (py ''50''). is_decimal U c"
    by (simp add: py_def is_decimal_def cls_def ascii_class_def)
  moreover have "py ''50'' \<noteq> []" by (simp add: py_def)
  ultimately show ?thesis
    unfolding limit_clause_def using space_32 [of U]
    by (intro exI [of _ "py ''LIMIT''"] exI [of _ "[32]"] exI [of _ "py ''50''"]) simp
qed

lemma append_limit_has_limit_clause: "has_limit_clause U (s @ py '' LIMIT 50'')"
proof -
  have "s @ py '' LIMIT 50'' = (s @ [32]) @ py ''LIMIT 50'' @ []" by (simp add: py_def)
  moreover have "\<not> ends_in_word U (s @ [32])"
    using space_not_word [OF space_32, of U] by (simp add: ends_in_word_def)
  moreover have "\<not> starts_with_word U []" by (simp add: starts_with_word_def)
  ultimately show ?thesis
    unfolding has_limit_clause_def whole_word_def using limit_50_clause by blast
qed


lemma sanitize_Inr:
  assumes "sanitize U sql = Inr t"
  shows "t = (if has_limit_clause U sql then strip U sql else strip U sql @ py '' LIMIT 50'')"
    and "\<not> contains_write_keyword U sql" and "begins_with_select U sql"
  using assms by (auto simp: sanitize_spec split: if_splits)

lemma executed_run:
  "executed (run U F E sql) =
     (case sanitize U sql of Inl r \<Rightarrow> []
      | Inr t \<Rightarrow> (case connect_error E of Some e \<Rightarrow> [] | None \<Rightarrow> [t]))"
  by (simp add: run_def execute_def query_rows_def split: sum.split option.split reply.split)

lemma strip_append_limit:
  assumes "strip U s \<noteq> []"
  shows "strip U (strip U s @ py '' LIMIT 50'') = strip U s @ py '' LIMIT 50''"
proof (rule strip_unspaced, rule disjI2, rule conjI)
  from assms strip_ends(1) [OF assms]
  show "\<not> is_space U (hd (strip U s @ py '' LIMIT 50''))" by simp
  have "last (strip U s @ py '' LIMIT 50'') = 48" by (simp add: py_def)
  then show "\<not> is_space U (last (strip U s @ py '' LIMIT 50''))"
    by (simp add: is_space_def cls_def ascii_class_def)
qed

lemma begins_with_select_nonempty: "begins_with_select U s \<Longrightarrow> s \<noteq> []"
  using select_letters ci_text_word_ends(1) unfolding begins_with_select_def by fastforce

lemmas run_eval = eval_defs run_def execute_def query_rows_def example_engine_def example_fmt_def

section \<open>Facts about the handler\<close>

lemma strip_all_space: "(\<forall>c\<in>set q. is_space U c) \<Longrightarrow> strip U q = []"
  by (auto simp: strip_def dest: set_dropWhileD)

lemma effects_agent_answer: "effects (agent_answer R result evs) = evs"
  by (simp add: agent_answer_def Let_def split: option.split pyval.split)

text \<open>
  The response of one of the four \<^verbatim>\<open>get_..._data\<close> functions, in terms of what the
  engine does with the statement, alone and after what the handler did before.
\<close>

lemma direct_query_response:
  "direct_query E sql message =
     (case connect_error E of
        Some e \<Rightarrow>
          \<lparr>status = 200,
           body = PDict [(py ''success'', PBool False),
                         (py ''message'', PStr (py ''Database error: '' @ e)),
                         (py ''data'', PNone)],
           effects = []\<rparr>
      | None \<Rightarrow>
          (case exec_driver_sql E sql of
             Db_raises e \<Rightarrow>
               \<lparr>status = 200,
                body = PDict [(py ''success'', PBool False),
                              (py ''message'', PStr (py ''Database error: '' @ e)),
                              (py ''data'', PNone)],
                effects = [Db_exec sql]\<rparr>
           | Db_rows columns rows \<Rightarrow>
               \<lparr>status = 200,
                body = PDict [(py ''success'', PBool True),
                              (py ''data'',
                               PDict [(py ''columns'', PList (map PStr columns)),
                                      (py ''rows'', PList (map (\<lambda>row. PList (map PCell row)) rows)),
                                      (py ''row_count'', PInt (int (length rows)))]),
                              (py ''message'', PStr (message (length rows)))],
                effects = [Db_exec sql]\<rparr>))"
  by (simp add: direct_query_def query_rows_def result_data_def split: option.split reply.split)

lemma routed_response:
  "(r = (direct_query E stmt found)\<lparr>effects := pre @ effects (direct_query E stmt found)\<rparr>) =
   (case connect_error E of
      Some e \<Rightarrow>
        r = \<lparr>status = 200,
             body = PDict [(py ''success'', PBool False),
                           (py ''message'', PStr (py ''Database error: '' @ e)),
                           (py ''data'', PNone)],
             effects = pre\<rparr>
    | None \<Rightarrow>
        (case exec_driver_sql E stmt of
           Db_raises e \<Rightarrow>
             r = \<lparr>status = 200,
                  body = PDict [(py ''success'', PBool False),
                                (py ''message'', PStr (py ''Database error: '' @ e)),
                                (py ''data'', PNone)],
                  effects = pre @ [Db_exec stmt]\<rparr>
         | Db_rows columns rows \<Rightarrow>
             r = \<lparr>status = 200,
                  body = PDict [(py ''success'', PBool True),
                                (py ''data'',
                                 PDict [(py ''columns'', PList (map PStr columns)),
                                        (py ''rows'',
                                         PList (map (\<lambda>row. PList (map PCell row)) rows)),
                                        (py ''row_count'', PInt (int (length rows)))]),
                                (py ''message'', PStr (found (length rows)))],
                  effects = pre @ [Db_exec stmt]\<rparr>))"
  by (cases "connect_error E"; cases "exec_driver_sql E stmt")
    (simp_all add: direct_query_response)

lemmas handler_eval = py_def strip_def is_space_def cls_def ascii_class_def ascii_only_def
  startswith_def lower_def example_rt_def example_engine_def dict_get_def str_nat.simps

section \<open>The claims\<close>

subsection \<open>C1: a semicolon inside the statement\<close>

text \<open>
  The check of line 44 is the one that returns the multiple-statements error. It
  looks at the last character only: it is taken when the input contains no write
  keyword, contains a semicolon, and its trimmed form does not end with a semicolon.
  So no input whose trimmed form ends with a semicolon is rejected by it, whatever
  stands before that semicolon.
\<close>

lemma multiple_statements_check:
  "sanitize U sql = Inl Multiple_statements \<longleftrightarrow>
     \<not> contains_write_keyword U sql \<and> contains (py '';'') sql \<and>
     \<not> endswith (strip U sql) (py '';'')"
  by (simp add: sanitize_spec contains_semicolon endswith_semicolon)

text \<open>
  Claim C1 at the input \<^verbatim>\<open>SELECT 1; SELECT 2;\<close>, two statements chained by a semicolon.
  The first semicolon is not the final character of the trimmed input, yet no early
  return is taken, because the input ends with a semicolon: the text is handed to
  the database with the default limit appended, and the string returned is not the
  multiple-statements error but what the database answered. Without the final
  semicolon, the same two statements are rejected.
\<close>

theorem chained_statements_executed:
  "semicolon \<in> set (butlast (strip ascii_only (py ''SELECT 1; SELECT 2;''))) \<and>
   sanitize ascii_only (py ''SELECT 1; SELECT 2;'') = Inr (py ''SELECT 1; SELECT 2; LIMIT 50'') \<and>
   executed (run ascii_only example_fmt example_engine (py ''SELECT 1; SELECT 2;'')) =
     [py ''SELECT 1; SELECT 2; LIMIT 50''] \<and>
   ret (run ascii_only example_fmt example_engine (py ''SELECT 1; SELECT 2;'')) \<noteq>
     py ''ERROR: Multiple statements are not allowed.'' \<and>
   startswith (ret (run ascii_only example_fmt example_engine (py ''SELECT 1; SELECT 2;'')))
     (py ''SUCCESS: '') \<and>
   sanitize ascii_only (py ''SELECT 1; SELECT 2'') = Inl Multiple_statements \<and>
   ret (run ascii_only example_fmt example_engine (py ''SELECT 1; SELECT 2'')) =
     py ''ERROR: Multiple statements are not allowed.'' \<and>
   executed (run ascii_only example_fmt example_engine (py ''SELECT 1; SELECT 2'')) = []"
  by (simp add: run_eval semicolon_def)

subsection \<open>C2: write keywords\<close>

text \<open>
  Claim C2. An input that contains one of INSERT, UPDATE, DELETE, DROP, TRUNCATE,
  ALTER, CREATE, REPLACE, in any case and as a whole word, makes \<^verbatim>\<open>_run\<close> return the
  write-operations error string without handing anything to the database; for an
  input that contains none of them this early return is not taken.
\<close>

theorem write_keyword_rejected:
  "(contains_write_keyword U sql \<longrightarrow>
      ret (run U F E sql) = py ''ERROR: Write operations are not allowed for security reasons.'' \<and>
      executed (run U F E sql) = []) \<and>
   (\<not> contains_write_keyword U sql \<longrightarrow> sanitize U sql \<noteq> Inl Write_operation)"
proof (intro conjI impI)
  assume "contains_write_keyword U sql"
  then have "re_search U write_pattern (strip U sql)"
    by (simp add: re_search_write_iff contains_write_keyword_strip)
  then have rejected: "sanitize U sql = Inl Write_operation"
    by (simp add: sanitize_def)
  then show "ret (run U F E sql) =
      py ''ERROR: Write operations are not allowed for security reasons.''"
    by (simp add: run_def)
  from rejected show "executed (run U F E sql) = []"
    by (simp add: run_def)
next
  assume "\<not> contains_write_keyword U sql"
  then have "\<not> re_search U write_pattern (strip U sql)"
    by (simp add: re_search_write_iff contains_write_keyword_strip)
  then show "sanitize U sql \<noteq> Inl Write_operation"
    by (simp add: sanitize_def Let_def)
qed

text \<open>
  The theorem at \<^verbatim>\<open>select 1 where Delete = 2\<close>, which contains a keyword, and at
  \<^verbatim>\<open>select updated from t\<close>, which contains none as a whole word.
\<close>

theorem write_keyword_rejected_witness:
  "contains_write_keyword ascii_only (py ''select 1 where Delete = 2'') \<and>
   ret (run ascii_only example_fmt example_engine (py ''select 1 where Delete = 2'')) =
     py ''ERROR: Write operations are not allowed for security reasons.'' \<and>
   executed (run ascii_only example_fmt example_engine (py ''select 1 where Delete = 2'')) = [] \<and>
   \<not> contains_write_keyword ascii_only (py ''select updated from t'') \<and>
   sanitize ascii_only (py ''select updated from t'') \<noteq> Inl Write_operation"
proof -
  have h1: "contains_write_keyword ascii_only (py ''select 1 where Delete = 2'')"
    unfolding re_search_write_iff [symmetric] by (simp add: run_eval)
  have h2: "\<not> contains_write_keyword ascii_only (py ''select updated from t'')"
    unfolding re_search_write_iff [symmetric] by (simp add: run_eval)
  from h1 h2
    write_keyword_rejected [of ascii_only "py ''select 1 where Delete = 2''" example_fmt example_engine]
    write_keyword_rejected [of ascii_only "py ''select updated from t''" example_fmt example_engine]
  show ?thesis by blast
qed

subsection \<open>C3: statements other than SELECT\<close>

text \<open>
  Claim C3. An input that does not begin, after optional leading whitespace and in
  any case, with the keyword SELECT is rejected: \<^verbatim>\<open>_run\<close> hands nothing to the database
  and returns a string that starts with \<^verbatim>\<open>ERROR: \<close>. The string is the write-operations
  error if the input contains a write keyword as a whole word, otherwise the
  multiple-statements error if the input contains a semicolon and its trimmed form
  does not end with one, otherwise the error \<^verbatim>\<open>ERROR: Only SELECT statements are allowed.\<close>
\<close>

theorem non_select_rejected:
  assumes "\<not> begins_with_select U sql"
  shows "executed (run U F E sql) = [] \<and>
         startswith (ret (run U F E sql)) (py ''ERROR: '') \<and>
         ret (run U F E sql) =
           (if contains_write_keyword U sql
            then py ''ERROR: Write operations are not allowed for security reasons.''
            else if contains (py '';'') sql \<and> \<not> endswith (strip U sql) (py '';'')
            then py ''ERROR: Multiple statements are not allowed.''
            else py ''ERROR: Only SELECT statements are allowed.'')"
proof -
  from assms have "sanitize U sql =
      (if contains_write_keyword U sql then Inl Write_operation
       else if contains (py '';'') sql \<and> \<not> endswith (strip U sql) (py '';'')
       then Inl Multiple_statements else Inl Not_select)"
    by (auto simp: sanitize_spec contains_semicolon endswith_semicolon)
  then show ?thesis
    by (simp add: run_def startswith_def py_def)
qed

text \<open>
  The theorem at \<^verbatim>\<open>  selection from t\<close>, where SELECT is not a whole word, and at
  \<^verbatim>\<open>SHOW TABLES; \<close>.
\<close>

theorem non_select_rejected_witness:
  "\<not> begins_with_select ascii_only (py ''  selection from t'') \<and>
   executed (run ascii_only example_fmt example_engine (py ''  selection from t'')) = [] \<and>
   startswith (ret (run ascii_only example_fmt example_engine (py ''  selection from t'')))
     (py ''ERROR: '') \<and>
   ret (run ascii_only example_fmt example_engine (py ''  selection from t'')) =
     py ''ERROR: Only SELECT statements are allowed.'' \<and>
   \<not> begins_with_select ascii_only (py ''SHOW TABLES; '') \<and>
   executed (run ascii_only example_fmt example_engine (py ''SHOW TABLES; '')) = [] \<and>
   startswith (ret (run ascii_only example_fmt example_engine (py ''SHOW TABLES; '')))
     (py ''ERROR: '') \<and>
   ret (run ascii_only example_fmt example_engine (py ''SHOW TABLES; '')) =
     py ''ERROR: Only SELECT statements are allowed.''"
proof -
  have h: "\<not> begins_with_select ascii_only (py ''  selection from t'')"
    unfolding re_match_select_iff [symmetric] by (simp add: run_eval)
  have w: "\<not> contains_write_keyword ascii_only (py ''  selection from t'')"
    unfolding re_search_write_iff [symmetric] by (simp add: run_eval)
  have s: "\<not> contains (py '';'') (py ''  selection from t'')"
    by (simp add: py_def startswith_def)
  have h': "\<not> begins_with_select ascii_only (py ''SHOW TABLES; '')"
    unfolding re_match_select_iff [symmetric] by (simp add: run_eval)
  have w': "\<not> contains_write_keyword ascii_only (py ''SHOW TABLES; '')"
    unfolding re_search_write_iff [symmetric] by (simp add: run_eval)
  have s': "endswith (strip ascii_only (py ''SHOW TABLES; '')) (py '';'')"
    by (simp add: run_eval)
  from h w s h' w' s'
    non_select_rejected [OF h, of example_fmt example_engine]
    non_select_rejected [OF h', of example_fmt example_engine]
  show ?thesis by (simp add: startswith_def py_def)
qed

subsection \<open>C4: the default limit\<close>




subsection \<open>C5: failures of the database\<close>

text \<open>
  Claim C5. \<^verbatim>\<open>_run\<close> returns a string on every input: the model is a total function,
  and every exception of the \<^verbatim>\<open>try\<close> block is a value that the \<^verbatim>\<open>except\<close> clause maps to a
  string. When opening the connection or running the sanitized statement raises
  with message \<open>msg\<close>, the string returned is \<^verbatim>\<open>ERROR: \<close> followed by \<open>msg\<close>.
\<close>

theorem execution_failure_returns_error:
  assumes "sanitize U sql = Inr t"
    and "connect_error E = Some msg \<or> (connect_error E = None \<and> exec_driver_sql E t = Db_raises msg)"
  shows "ret (run U F E sql) = py ''ERROR: '' @ msg"
proof -
  from assms(2) have "query_rows E t = (Db_raises msg, []) \<or> query_rows E t = (Db_raises msg, [t])"
    by (auto simp: query_rows_def)
  then have "ret (execute F E t) = py ''ERROR: '' @ msg"
    by (auto simp: execute_def)
  with assms(1) show ?thesis by (simp add: run_def)
qed

text \<open>
  The theorem at an engine whose every statement fails with
  \<^verbatim>\<open>no such table: t\<close>.
\<close>

theorem execution_failure_returns_error_witness:
  "sanitize ascii_only (py ''select a from t'') = Inr (py ''select a from t LIMIT 50'') \<and>
   connect_error failing_engine = None \<and>
   exec_driver_sql failing_engine (py ''select a from t LIMIT 50'') = Db_raises (py ''no such table: t'') \<and>
   ret (run ascii_only example_fmt failing_engine (py ''select a from t'')) =
     py ''ERROR: no such table: t''"
proof -
  have h1: "sanitize ascii_only (py ''select a from t'') = Inr (py ''select a from t LIMIT 50'')"
    by (simp add: run_eval)
  have h2: "connect_error failing_engine = None \<and>
      exec_driver_sql failing_engine (py ''select a from t LIMIT 50'') = Db_raises (py ''no such table: t'')"
    by (simp add: failing_engine_def)
  from execution_failure_returns_error [OF h1 disjI2 [OF h2], of example_fmt] h1 h2
  show ?thesis by (simp add: py_def)
qed

subsection \<open>C6: results\<close>

text \<open>
  Claim C6. When the sanitized statement runs and yields no row, \<^verbatim>\<open>_run\<close> returns the
  no-results string; when it yields at least one row, \<^verbatim>\<open>_run\<close> returns \<^verbatim>\<open>SUCCESS: \<close>
  followed by the dictionary of the column names, the rows and the number of rows.
\<close>

theorem success_payload:
  assumes "sanitize U sql = Inr t" and "connect_error E = None"
    and "exec_driver_sql E t = Db_rows columns rows"
  shows "ret (run U F E sql) =
           (if rows = [] then py ''Query executed successfully but returned no results.''
            else py ''SUCCESS: '' @
                 py ''{'columns': '' @ repr_list (map (repr_str F) columns) @
                 py '', 'rows': '' @ repr_list (map (\<lambda>row. repr_list (map (repr_cell F) row)) rows) @
                 py '', 'row_count': '' @ str_nat (length rows) @ py ''}'')"
proof -
  from assms(2,3) have "query_rows E t = (Db_rows columns rows, [t])"
    by (simp add: query_rows_def)
  then have "ret (execute F E t) =
      (if rows = [] then py ''Query executed successfully but returned no results.''
       else py ''SUCCESS: '' @ repr_result_data F columns rows)"
    by (simp add: execute_def)
  with assms(1) show ?thesis by (simp add: run_def repr_result_data_def)
qed

text \<open>
  The theorem at an engine that answers every statement with one column and two
  rows.
\<close>

theorem success_payload_witness:
  "sanitize ascii_only (py ''select id from t'') = Inr (py ''select id from t LIMIT 50'') \<and>
   connect_error example_engine = None \<and>
   exec_driver_sql example_engine (py ''select id from t LIMIT 50'') = Db_rows [py ''id''] [[1], [2]] \<and>
   ret (run ascii_only example_fmt example_engine (py ''select id from t'')) =
     py ''SUCCESS: {'columns': ['id'], 'rows': [[1], [2]], 'row_count': 2}''"
proof -
  have h1: "sanitize ascii_only (py ''select id from t'') = Inr (py ''select id from t LIMIT 50'')"
    by (simp add: run_eval)
  have h2: "connect_error example_engine = None" by (simp add: example_engine_def)
  have h3: "exec_driver_sql example_engine (py ''select id from t LIMIT 50'') = Db_rows [py ''id''] [[1], [2]]"
    by (simp add: example_engine_def)
  from success_payload [OF h1 h2 h3, of example_fmt] h1 h2 h3
  show ?thesis
    by (simp add: py_def repr_list_def example_fmt_def str_nat.simps)
qed

subsection \<open>C7: the quota fallback\<close>

text \<open>
  Claim C7. For a request with a non-empty query for which invoking the agent raises
  with message \<open>msg\<close>: if \<open>msg\<close> contains \<^verbatim>\<open>429\<close> or, in any case, \<^verbatim>\<open>quota\<close>, the response
  is the hardcoded fallback, routed on the lower-cased query. A query that contains
  \<^verbatim>\<open>customers\<close>, \<^verbatim>\<open>products\<close> or \<^verbatim>\<open>orders\<close> (in this order of precedence) runs
  \<^verbatim>\<open>SELECT * FROM\<close> that table \<^verbatim>\<open>LIMIT 20\<close>, and one that contains \<^verbatim>\<open>revenue\<close> or \<^verbatim>\<open>total\<close>
  runs the revenue statement; this one statement is all that is run, and the
  response, of status 200, carries the columns, the rows and the row count that the
  database returned, with a message that names the table and the number of rows, or
  the database error if connecting or running the statement failed. A query that
  contains none of these words is answered with the quota-exceeded message, and
  nothing is run. If \<open>msg\<close> contains neither \<^verbatim>\<open>429\<close> nor \<^verbatim>\<open>quota\<close>, the response has status
  500 and carries the server error. The handler runs a statement on the database
  itself only on the quota path.
\<close>

theorem quota_fallback:
  "(dict_get items (py ''query'') (PStr []) = PStr q \<and> strip U q \<noteq> [] \<and>
    agent (strip U q) = Agent_raises msg \<longrightarrow>
      (quota_reported R msg \<longrightarrow>
         (let ql = lower R (strip U q);
              pre = [Agent_init, Agent_invoke (strip U q)];
         r = query_agent U R (Some agent) E (Inr (PDict items));
         stmt =
           (if contains (py ''customers'') ql then py ''SELECT * FROM customers LIMIT 20''
            else if contains (py ''products'') ql then py ''SELECT * FROM products LIMIT 20''
            else if contains (py ''orders'') ql then py ''SELECT * FROM orders LIMIT 20''
            else
              py ''\<newline>'' @
              py ''                SELECT \<newline>'' @
              py ''                    SUM(oi.quantity * oi.unit_price_cents) as total_revenue_cents,\<newline>'' @
              py ''                    COUNT(DISTINCT o.id) as total_orders,\<newline>'' @
              py ''                    COUNT(DISTINCT o.customer_id) as total_customers\<newline>'' @
              py ''                FROM orders o\<newline>'' @
              py ''                JOIN order_items oi ON o.id = oi.order_id\<newline>'' @
              py ''            '');
         found =
           (\<lambda>n. if contains (py ''customers'') ql then
                  py ''Found '' @ str_nat n @
                  py '' customers (API quota exceeded, showing direct database results)''
                else if contains (py ''products'') ql then
                  py ''Found '' @ str_nat n @
                  py '' products (API quota exceeded, showing direct database results)''
                else if contains (py ''orders'') ql then
                  py ''Found '' @ str_nat n @
                  py '' orders (API quota exceeded, showing direct database results)''
                else py ''Revenue analysis (API quota exceeded, showing direct database results)'')
     in if contains (py ''customers'') ql \<or> contains (py ''products'') ql \<or>
           contains (py ''orders'') ql \<or> contains (py ''revenue'') ql \<or>
           contains (py ''total'') ql
        then
          (case connect_error E of
             Some e \<Rightarrow>
               r = \<lparr>status = 200,
                    body = PDict [(py ''success'', PBool False),
                                  (py ''message'', PStr (py ''Database error: '' @ e)),
                                  (py ''data'', PNone)],
                    effects = pre\<rparr>
           | None \<Rightarrow>
               (case exec_driver_sql E stmt of
                  Db_raises e \<Rightarrow>
                    r = \<lparr>status = 200,
                         body = PDict [(py ''success'', PBool False),
                                       (py ''message'', PStr (py ''Database error: '' @ e)),
                                       (py ''data'', PNone)],
                         effects = pre @ [Db_exec stmt]\<rparr>
                | Db_rows columns rows \<Rightarrow>
                    r = \<lparr>status = 200,
                         body = PDict [(py ''success'', PBool True),
                                       (py ''data'',
                                        PDict [(py ''columns'', PList (map PStr columns)),
                                               (py ''rows'',
                                                PList (map (\<lambda>row. PList (map PCell row)) rows)),
                                               (py ''row_count'', PInt (int (length rows)))]),
                                       (py ''message'', PStr (found (length rows)))],
                         effects = pre @ [Db_exec stmt]\<rparr>))
        else
          r = \<lparr>status = 200,
               body = PDict [(py ''success'', PBool False),
                             (py ''message'', PStr (py ''API quota exceeded. Please try again later or upgrade your plan. For now, try asking about \"customers\", \"products\", or \"orders\".'')),
                             (py ''data'', PNone)],
               effects = pre\<rparr>)) \<and>
      (\<not> quota_reported R msg \<longrightarrow>
         query_agent U R (Some agent) E (Inr (PDict items)) =
           \<lparr>status = 500, body = PDict [(py ''error'', PStr (py ''Server error: '' @ msg))],
            effects = [Agent_init, Agent_invoke (strip U q)]\<rparr>)) \<and>
   (Db_exec s \<in> set (effects (query_agent U R get_sql_agent E request_json)) \<longrightarrow>
      (\<exists>items' q' agent' msg'.
          request_json = Inr (PDict items') \<and>
          dict_get items' (py ''query'') (PStr []) = PStr q' \<and> strip U q' \<noteq> [] \<and>
          get_sql_agent = Some agent' \<and> agent' (strip U q') = Agent_raises msg' \<and>
          quota_reported R msg'))"
  (is "(_ \<longrightarrow> (_ \<longrightarrow> ?routes) \<and> _) \<and> _")
proof (intro conjI impI)
  assume a: "dict_get items (py ''query'') (PStr []) = PStr q \<and> strip U q \<noteq> [] \<and>
    agent (strip U q) = Agent_raises msg"
  {
    assume qr: "quota_reported R msg"
    let ?uq = "strip U q"
    let ?ql = "lower R ?uq"
    let ?pre = "[Agent_init, Agent_invoke ?uq]"
    from a qr have r: "query_agent U R (Some agent) E (Inr (PDict items)) =
        (handle_quota_exceeded R E ?uq)
          \<lparr>effects := ?pre @ effects (handle_quota_exceeded R E ?uq)\<rparr>"
      by (simp add: query_agent_def quota_reported_def Let_def)
    show ?routes
    proof (cases "contains (py ''customers'') ?ql")
      case True
      then have "handle_quota_exceeded R E ?uq = get_customers_data E"
        by (simp add: handle_quota_exceeded_def Let_def)
      with r True show ?thesis
        unfolding Let_def get_customers_data_def
        by (simp only: routed_response if_True simp_thms)
    next
      case c: False
      show ?thesis
      proof (cases "contains (py ''products'') ?ql")
        case True
        with c have "handle_quota_exceeded R E ?uq = get_products_data E"
          by (simp add: handle_quota_exceeded_def Let_def)
        with r c True show ?thesis
          unfolding Let_def get_products_data_def
          by (simp only: routed_response if_True if_False simp_thms)
      next
        case p: False
        show ?thesis
        proof (cases "contains (py ''orders'') ?ql")
          case True
          with c p have "handle_quota_exceeded R E ?uq = get_orders_data E"
            by (simp add: handle_quota_exceeded_def Let_def)
          with r c p True show ?thesis
            unfolding Let_def get_orders_data_def
            by (simp only: routed_response if_True if_False simp_thms)
        next
          case o: False
          show ?thesis
          proof (cases "contains (py ''revenue'') ?ql \<or> contains (py ''total'') ?ql")
            case True
            with c p o have "handle_quota_exceeded R E ?uq = get_revenue_data E"
              by (simp add: handle_quota_exceeded_def Let_def)
            with r c p o True show ?thesis
              unfolding Let_def get_revenue_data_def revenue_sql_def
              by (simp only: routed_response if_True if_False simp_thms)
          next
            case False
            with c p o have "handle_quota_exceeded R E ?uq =
                \<lparr>status = 200,
                 body = PDict [(py ''success'', PBool False),
                               (py ''message'', PStr (py ''API quota exceeded. Please try again later or upgrade your plan. For now, try asking about \"customers\", \"products\", or \"orders\".'')),
                               (py ''data'', PNone)],
                 effects = []\<rparr>"
              by (simp add: handle_quota_exceeded_def Let_def)
            with r c p o False show ?thesis
              unfolding Let_def by simp
          qed
        qed
      qed
    qed
  }
  {
    assume "\<not> quota_reported R msg"
    with a show "query_agent U R (Some agent) E (Inr (PDict items)) =
           \<lparr>status = 500, body = PDict [(py ''error'', PStr (py ''Server error: '' @ msg))],
            effects = [Agent_init, Agent_invoke (strip U q)]\<rparr>"
      by (simp add: query_agent_def quota_reported_def Let_def server_error_def)
  }
next
  assume d: "Db_exec s \<in> set (effects (query_agent U R get_sql_agent E request_json))"
  show "\<exists>items' q' agent' msg'.
          request_json = Inr (PDict items') \<and>
          dict_get items' (py ''query'') (PStr []) = PStr q' \<and> strip U q' \<noteq> [] \<and>
          get_sql_agent = Some agent' \<and> agent' (strip U q') = Agent_raises msg' \<and>
          quota_reported R msg'"
  proof (cases request_json)
    case (Inl e)
    with d show ?thesis by (simp add: query_agent_def server_error_def)
  next
    case (Inr v)
    show ?thesis
    proof (cases v)
      case (PDict items')
      show ?thesis
      proof (cases "dict_get items' (py ''query'') (PStr [])")
        case (PStr q')
        show ?thesis
        proof (cases "strip U q' = []")
          case True
          with d Inr PDict PStr show ?thesis by (simp add: query_agent_def)
        next
          case False
          show ?thesis
          proof (cases get_sql_agent)
            case None
            with d Inr PDict PStr False show ?thesis by (simp add: query_agent_def)
          next
            case (Some agent')
            show ?thesis
            proof (cases "agent' (strip U q')")
              case (Agent_output result)
              with d Inr PDict PStr False Some show ?thesis
                by (simp add: query_agent_def effects_agent_answer)
            next
              case (Agent_raises msg')
              show ?thesis
              proof (cases "quota_reported R msg'")
                case True
                with Inr PDict PStr False Some Agent_raises show ?thesis by blast
              next
                case nq: False
                with d Inr PDict PStr False Some Agent_raises show ?thesis
                  by (simp add: query_agent_def quota_reported_def server_error_def)
              qed
            qed
          qed
        qed
      qed (use d Inr PDict in \<open>simp_all add: query_agent_def server_error_def\<close>)
    qed (use d Inr in \<open>simp_all add: query_agent_def server_error_def\<close>)
  qed
qed

text \<open>
  The theorem at the queries \<^verbatim>\<open> Show all Orders \<close> and \<^verbatim>\<open>What is the total?\<close>, with an
  agent that reports quota exhaustion, and at the first query with an agent that
  fails otherwise.
\<close>

theorem quota_fallback_witness:
  "dict_get [(py ''query'', PStr (py '' Show all Orders ''))] (py ''query'') (PStr []) =
     (PStr (py '' Show all Orders '') :: nat pyval) \<and>
   strip ascii_only (py '' Show all Orders '') = py ''Show all Orders'' \<and>
   throttled_agent (py ''Show all Orders'') =
     Agent_raises (py ''429 Resource has been exhausted (e.g. check Quota).'') \<and>
   quota_reported example_rt (py ''429 Resource has been exhausted (e.g. check Quota).'') \<and>
   query_agent ascii_only example_rt (Some throttled_agent) example_engine
       (Inr (PDict [(py ''query'', PStr (py '' Show all Orders ''))])) =
     \<lparr>status = 200,
      body = PDict [(py ''success'', PBool True),
                    (py ''data'',
                     PDict [(py ''columns'', PList [PStr (py ''id'')]),
                            (py ''rows'', PList [PList [PCell 1], PList [PCell 2]]),
                            (py ''row_count'', PInt 2)]),
                    (py ''message'',
                     PStr (py ''Found 2 orders (API quota exceeded, showing direct database results)''))],
      effects = [Agent_init, Agent_invoke (py ''Show all Orders''),
                 Db_exec (py ''SELECT * FROM orders LIMIT 20'')]\<rparr> \<and>
   query_agent ascii_only example_rt (Some throttled_agent) example_engine
       (Inr (PDict [(py ''query'', PStr (py ''What is the total?''))])) =
     \<lparr>status = 200,
      body = PDict [(py ''success'', PBool True),
                    (py ''data'',
                     PDict [(py ''columns'', PList [PStr (py ''id'')]),
                            (py ''rows'', PList [PList [PCell 1], PList [PCell 2]]),
                            (py ''row_count'', PInt 2)]),
                    (py ''message'',
                     PStr (py ''Revenue analysis (API quota exceeded, showing direct database results)''))],
      effects = [Agent_init, Agent_invoke (py ''What is the total?''),
                 Db_exec
                  (py ''\<newline>'' @
                   py ''                SELECT \<newline>'' @
                   py ''                    SUM(oi.quantity * oi.unit_price_cents) as total_revenue_cents,\<newline>'' @
                   py ''                    COUNT(DISTINCT o.id) as total_orders,\<newline>'' @
                   py ''                    COUNT(DISTINCT o.customer_id) as total_customers\<newline>'' @
                   py ''                FROM orders o\<newline>'' @
                   py ''                JOIN order_items oi ON o.id = oi.order_id\<newline>'' @
                   py ''            '')]\<rparr> \<and>
   broken_agent (py ''Show all Orders'') = Agent_raises (py ''connection reset'') \<and>
   \<not> quota_reported example_rt (py ''connection reset'') \<and>
   query_agent ascii_only example_rt (Some broken_agent) example_engine
       (Inr (PDict [(py ''query'', PStr (py '' Show all Orders ''))])) =
     \<lparr>status = 500, body = PDict [(py ''error'', PStr (py ''Server error: connection reset''))],
      effects = [Agent_init, Agent_invoke (py ''Show all Orders'')]\<rparr> \<and>
   Db_exec (py ''SELECT * FROM orders LIMIT 20'') \<in>
     set (effects (query_agent ascii_only example_rt (Some throttled_agent) example_engine
       (Inr (PDict [(py ''query'', PStr (py '' Show all Orders ''))])))) \<and>
   (\<exists>items' q' agent' msg'.
       Inr (PDict [(py ''query'', PStr (py '' Show all Orders ''))]) =
         (Inr (PDict items') :: pystr + nat pyval) \<and>
       dict_get items' (py ''query'') (PStr []) = PStr q' \<and> strip ascii_only q' \<noteq> [] \<and>
       Some throttled_agent = Some agent' \<and> agent' (strip ascii_only q') = Agent_raises msg' \<and>
       quota_reported example_rt msg')"
proof -
  let ?items = "[(py ''query'', PStr (py '' Show all Orders ''))] :: (pystr \<times> nat pyval) list"
  let ?items' = "[(py ''query'', PStr (py ''What is the total?''))] :: (pystr \<times> nat pyval) list"
  let ?q = "py '' Show all Orders ''"
  let ?q' = "py ''What is the total?''"
  let ?m1 = "py ''429 Resource has been exhausted (e.g. check Quota).''"
  let ?m2 = "py ''connection reset''"
  have h1: "dict_get ?items (py ''query'') (PStr []) = PStr ?q"
    by (simp add: dict_get_def)
  have h2: "strip ascii_only ?q = py ''Show all Orders''"
    by (simp add: handler_eval)
  have h3: "throttled_agent (py ''Show all Orders'') = Agent_raises ?m1"
    by (simp add: throttled_agent_def)
  have h4: "broken_agent (py ''Show all Orders'') = Agent_raises ?m2"
    by (simp add: broken_agent_def)
  have q1: "quota_reported example_rt ?m1"
    by (simp add: handler_eval quota_reported_def)
  have q2: "\<not> quota_reported example_rt ?m2"
    by (simp add: handler_eval quota_reported_def)
  note T1 = quota_fallback [where items = ?items and q = ?q and U = ascii_only
      and agent = throttled_agent and msg = ?m1 and R = example_rt and E = example_engine]
  note T1' = quota_fallback [where items = ?items' and q = ?q' and U = ascii_only
      and agent = throttled_agent and msg = ?m1 and R = example_rt and E = example_engine]
  note T2 = quota_fallback [where items = ?items and q = ?q and U = ascii_only
      and agent = broken_agent and msg = ?m2 and R = example_rt and E = example_engine]
  have orders: "query_agent ascii_only example_rt (Some throttled_agent) example_engine
       (Inr (PDict ?items)) =
     \<lparr>status = 200,
      body = PDict [(py ''success'', PBool True),
                    (py ''data'',
                     PDict [(py ''columns'', PList [PStr (py ''id'')]),
                            (py ''rows'', PList [PList [PCell 1], PList [PCell 2]]),
                            (py ''row_count'', PInt 2)]),
                    (py ''message'',
                     PStr (py ''Found 2 orders (API quota exceeded, showing direct database results)''))],
      effects = [Agent_init, Agent_invoke (py ''Show all Orders''),
                 Db_exec (py ''SELECT * FROM orders LIMIT 20'')]\<rparr>"
    using T1 by (simp add: handler_eval quota_reported_def throttled_agent_def Let_def)
  have revenue: "query_agent ascii_only example_rt (Some throttled_agent) example_engine
       (Inr (PDict ?items')) =
     \<lparr>status = 200,
      body = PDict [(py ''success'', PBool True),
                    (py ''data'',
                     PDict [(py ''columns'', PList [PStr (py ''id'')]),
                            (py ''rows'', PList [PList [PCell 1], PList [PCell 2]]),
                            (py ''row_count'', PInt 2)]),
                    (py ''message'',
                     PStr (py ''Revenue analysis (API quota exceeded, showing direct database results)''))],
      effects = [Agent_init, Agent_invoke (py ''What is the total?''),
                 Db_exec
                  (py ''\<newline>'' @
                   py ''                SELECT \<newline>'' @
                   py ''                    SUM(oi.quantity * oi.unit_price_cents) as total_revenue_cents,\<newline>'' @
                   py ''                    COUNT(DISTINCT o.id) as total_orders,\<newline>'' @
                   py ''                    COUNT(DISTINCT o.customer_id) as total_customers\<newline>'' @
                   py ''                FROM orders o\<newline>'' @
                   py ''                JOIN order_items oi ON o.id = oi.order_id\<newline>'' @
                   py ''            '')]\<rparr>"
    using T1' by (simp add: handler_eval quota_reported_def throttled_agent_def Let_def)
  have err: "query_agent ascii_only example_rt (Some broken_agent) example_engine
       (Inr (PDict ?items)) =
     \<lparr>status = 500, body = PDict [(py ''error'', PStr (py ''Server error: connection reset''))],
      effects = [Agent_init, Agent_invoke (py ''Show all Orders'')]\<rparr>"
    using T2 by (simp add: handler_eval quota_reported_def broken_agent_def Let_def)
  have e: "Db_exec (py ''SELECT * FROM orders LIMIT 20'') \<in>
      set (effects (query_agent ascii_only example_rt (Some throttled_agent) example_engine
        (Inr (PDict ?items))))"
    unfolding orders by simp
  note T3 = quota_fallback [where U = ascii_only and R = example_rt and E = example_engine
      and s = "py ''SELECT * FROM orders LIMIT 20''" and get_sql_agent = "Some throttled_agent"
      and request_json = "Inr (PDict ?items)"]
  from T3 e
  have x: "\<exists>items' q' agent' msg'.
       Inr (PDict ?items) = (Inr (PDict items') :: pystr + nat pyval) \<and>
       dict_get items' (py ''query'') (PStr []) = PStr q' \<and> strip ascii_only q' \<noteq> [] \<and>
       Some throttled_agent = Some agent' \<and> agent' (strip ascii_only q') = Agent_raises msg' \<and>
       quota_reported example_rt msg'"
    by blast
  from h1 h2 h3 h4 q1 q2 orders revenue err e x show ?thesis
    by (intro conjI)
qed

subsection \<open>C8: what reaches the database\<close>

text \<open>
  Claim C8. Every statement that \<^verbatim>\<open>_run\<close> hands to the database begins with the
  keyword SELECT (in any case), contains none of the write keywords as a whole word
  and contains a LIMIT clause with a number.
\<close>

theorem executed_sql_invariant:
  assumes "t \<in> set (executed (run U F E sql))"
  shows "begins_with_select U t \<and> \<not> contains_write_keyword U t \<and> has_limit_clause U t"
proof -
  from assms have san: "sanitize U sql = Inr t"
    by (cases "sanitize U sql"; cases "connect_error E") (simp_all add: executed_run)
  let ?s = "strip U sql"
  have s: "begins_with_select U ?s" "\<not> contains_write_keyword U ?s"
    using sanitize_Inr(2,3) [OF san]
    by (simp_all add: begins_with_select_strip contains_write_keyword_strip)
  show ?thesis
  proof (cases "has_limit_clause U sql")
    case True
    with sanitize_Inr(1) [OF san] have "t = ?s" by simp
    with s True show ?thesis by (simp add: has_limit_clause_strip)
  next
    case False
    with sanitize_Inr(1) [OF san] have "t = ?s @ py '' LIMIT 50''" by simp
    with s show ?thesis
      by (simp add: append_limit_begins_with_select append_limit_no_keyword
          append_limit_has_limit_clause)
  qed
qed

text \<open>
  The theorem at the input \<^verbatim>\<open>select id from t;\<close>.
\<close>

theorem executed_sql_invariant_witness:
  "py ''select id from t; LIMIT 50'' \<in>
     set (executed (run ascii_only example_fmt example_engine (py ''select id from t;''))) \<and>
   begins_with_select ascii_only (py ''select id from t; LIMIT 50'') \<and>
   \<not> contains_write_keyword ascii_only (py ''select id from t; LIMIT 50'') \<and>
   has_limit_clause ascii_only (py ''select id from t; LIMIT 50'')"
proof -
  have h: "py ''select id from t; LIMIT 50'' \<in>
     set (executed (run ascii_only example_fmt example_engine (py ''select id from t;'')))"
    by (simp add: run_eval)
  from h executed_sql_invariant [OF h] show ?thesis by blast
qed

subsection \<open>C9: requests without a query\<close>

text \<open>
  Claim C9, amended. When the JSON body of the request is an object that has no
  \<^verbatim>\<open>query\<close> item, or whose \<^verbatim>\<open>query\<close> is a string that is empty or consists of whitespace
  only, the response has status 400 and the error \<^verbatim>\<open>No query provided\<close>; the agent is
  neither set up nor invoked and no statement is run.
\<close>

theorem missing_query_rejected:
  assumes "map_of items (py ''query'') = None \<or>
           (\<exists>q. map_of items (py ''query'') = Some (PStr q) \<and> (\<forall>c\<in>set q. is_space U c))"
  shows "query_agent U R get_sql_agent E (Inr (PDict items)) =
           \<lparr>status = 400, body = PDict [(py ''error'', PStr (py ''No query provided''))],
            effects = []\<rparr>"
  using assms
  by (auto simp: query_agent_def dict_get_def strip_all_space Let_def)

text \<open>
  The theorem at a body without \<^verbatim>\<open>query\<close> and at a body whose \<^verbatim>\<open>query\<close> is three
  spaces.
\<close>

theorem missing_query_rejected_witness:
  "map_of [(py ''question'', PStr (py ''how many orders'') :: nat pyval)] (py ''query'') = None \<and>
   query_agent ascii_only example_rt (Some throttled_agent) example_engine
       (Inr (PDict [(py ''question'', PStr (py ''how many orders''))])) =
     \<lparr>status = 400, body = PDict [(py ''error'', PStr (py ''No query provided''))], effects = []\<rparr> \<and>
   map_of [(py ''query'', PStr (py ''   ''))] (py ''query'') = Some (PStr (py ''   '') :: nat pyval) \<and>
   list_all (is_space ascii_only) (py ''   '') \<and>
   query_agent ascii_only example_rt (Some throttled_agent) example_engine
       (Inr (PDict [(py ''query'', PStr (py ''   ''))])) =
     \<lparr>status = 400, body = PDict [(py ''error'', PStr (py ''No query provided''))], effects = []\<rparr>"
proof -
  have h1: "map_of [(py ''question'', PStr (py ''how many orders'') :: nat pyval)] (py ''query'') = None"
    by (simp add: py_def)
  have h2: "map_of [(py ''query'', PStr (py ''   ''))] (py ''query'') = Some (PStr (py ''   '') :: nat pyval)"
    by simp
  have h3: "\<forall>c\<in>set (py ''   ''). is_space ascii_only c"
    by (simp add: py_def is_space_def cls_def ascii_class_def)
  from h2 h3 have h4: "map_of [(py ''query'', PStr (py ''   ''))] (py ''query'') = None \<or>
      (\<exists>q. map_of [(py ''query'', PStr (py ''   ''))] (py ''query'') = Some (PStr q :: nat pyval) \<and>
           (\<forall>c\<in>set q. is_space (ascii_only :: ucd) c))"
    by blast
  from missing_query_rejected [OF disjI1 [OF h1], of ascii_only example_rt "Some throttled_agent" example_engine]
    missing_query_rejected [OF h4, of example_rt "Some throttled_agent" example_engine]
    h1 h2 h3
  show ?thesis unfolding list_all_iff by blast
qed

text \<open>
  Claim C9 as stated fails: a body that is the empty JSON array has no \<^verbatim>\<open>query\<close>
  field, and the response has status 500, because looking up \<^verbatim>\<open>get\<close> on a list
  raises and the handler turns every exception into a server error.
\<close>

theorem non_object_body_counterexample:
  "query_agent ascii_only example_rt (Some throttled_agent) example_engine (Inr (PList [])) =
     \<lparr>status = 500,
      body = PDict [(py ''error'',
                     PStr (py ''Server error: '' @ attribute_error example_rt (PList []) (py ''get'')))],
      effects = []\<rparr>"
  by (simp add: query_agent_def server_error_def)

subsection \<open>C10: applying the filter twice\<close>

text \<open>
  The text computed for an accepted input is accepted again and left as it is,
  provided that the input has a LIMIT clause or its trimmed form does not end with
  a semicolon.
\<close>

lemma sanitize_idempotent:
  assumes san: "sanitize U sql = Inr t"
    and ok: "has_limit_clause U sql \<or> \<not> endswith (strip U sql) (py '';'')"
  shows "sanitize U t = Inr t"
proof -
  let ?s = "strip U sql"
  from san have acc: "\<not> contains_write_keyword U sql" "begins_with_select U sql"
    and semi: "59 \<in> set sql \<longrightarrow> ?s \<noteq> [] \<and> last ?s = 59"
    and t: "t = (if has_limit_clause U sql then ?s else ?s @ py '' LIMIT 50'')"
    by (auto simp: sanitize_spec split: if_splits)
  from acc have s: "\<not> contains_write_keyword U ?s" "begins_with_select U ?s"
    by (simp_all add: contains_write_keyword_strip begins_with_select_strip)
  then have ne: "?s \<noteq> []" using begins_with_select_nonempty by blast
  have st: "strip U t = t"
    using t ne by (simp add: strip_idem strip_append_limit)
  have 1: "\<not> contains_write_keyword U t"
    using t s by (simp add: append_limit_no_keyword)
  have 2: "begins_with_select U t"
    using t s by (simp add: append_limit_begins_with_select)
  have 3: "has_limit_clause U t"
    using t by (simp add: append_limit_has_limit_clause has_limit_clause_strip)
  have 4: "59 \<in> set t \<longrightarrow> t \<noteq> [] \<and> last t = 59"
  proof (cases "has_limit_clause U sql")
    case True
    with t semi show ?thesis by (simp add: semicolon_strip)
  next
    case False
    with ok have "\<not> (?s \<noteq> [] \<and> last ?s = 59)" by (simp add: endswith_semicolon)
    with semi have "59 \<notin> set sql" by blast
    then have "59 \<notin> set ?s" by (simp add: semicolon_strip)
    with t False show ?thesis by (simp add: py_def)
  qed
  from 1 2 3 4 st show ?thesis by (simp add: sanitize_spec)
qed

text \<open>
  Claim C10 at the input \<^verbatim>\<open>SELECT 1;\<close>. The input is accepted and the text computed
  for it, which is handed to the database, is \<^verbatim>\<open>SELECT 1; LIMIT 50\<close>: the limit is
  appended after the semicolon. The filter rejects that text as multiple
  statements.
\<close>

theorem transform_output_rejected_after_trailing_semicolon:
  "sanitize ascii_only (py ''SELECT 1;'') = Inr (py ''SELECT 1; LIMIT 50'') \<and>
   sanitize ascii_only (py ''SELECT 1; LIMIT 50'') = Inl Multiple_statements \<and>
   executed (run ascii_only example_fmt example_engine (py ''SELECT 1;'')) = [py ''SELECT 1; LIMIT 50''] \<and>
   executed (run ascii_only example_fmt example_engine (py ''SELECT 1; LIMIT 50'')) = []"
  by (simp add: run_eval)

end
